theory Spec2Isabelle
  imports Complex_Main
begin

section \<open>Eigenvalue decomposition of a real matrix (EigenvalueDecomposition.hpp)\<close>

text \<open>
  The class template \<open>EigenvalueDecomposition<T,TRI,L>\<close> is embedded with \<open>T\<close> read as
  the real numbers: \<open>+\<close>, \<open>*\<close>, \<open>/\<close>, \<open>std::sqrt\<close> and \<open>std::abs\<close> are the exact
  operations of \<^typ>\<open>real\<close>, so rounding, overflow, infinities and NaN are outside the
  model. The \<open>int\<close> indices of the source are \<^typ>\<open>int\<close>. A vector is a function from
  indices to entries and a matrix a function from index pairs to entries; the entries
  outside \<open>0..n-1\<close> stand for the memory the container does not own.
\<close>

type_synonym vec = "int \<Rightarrow> real"
type_synonym mat = "int \<times> int \<Rightarrow> real"

subsection \<open>Counting loops\<close>

text \<open>\<^verbatim>\<open>for (int k = lo; k < hi; ++k) body\<close>, the loop state passed through the body.\<close>

function for_up :: "int \<Rightarrow> int \<Rightarrow> (int \<Rightarrow> 'a \<Rightarrow> 'a) \<Rightarrow> 'a \<Rightarrow> 'a" where
  "for_up k hi body s = (if k < hi then for_up (k + 1) hi body (body k s) else s)"
  by pat_completeness auto
termination
  by (relation "measure (\<lambda>(k, hi, body, s). nat (hi - k))") auto

declare for_up.simps [simp del]

text \<open>\<^verbatim>\<open>for (int k = lo; k <= hi; ++k) body\<close>.\<close>

abbreviation for_to :: "int \<Rightarrow> int \<Rightarrow> (int \<Rightarrow> 'a \<Rightarrow> 'a) \<Rightarrow> 'a \<Rightarrow> 'a" where
  "for_to k hi body s \<equiv> for_up k (hi + 1) body s"

text \<open>\<^verbatim>\<open>for (int k = hi; k >= lo; --k) body\<close>.\<close>

function for_down :: "int \<Rightarrow> int \<Rightarrow> (int \<Rightarrow> 'a \<Rightarrow> 'a) \<Rightarrow> 'a \<Rightarrow> 'a" where
  "for_down k lo body s = (if lo \<le> k then for_down (k - 1) lo body (body k s) else s)"
  by pat_completeness auto
termination
  by (relation "measure (\<lambda>(k, lo, body, s). nat (k + 1 - lo))") auto

declare for_down.simps [simp del]

subsection \<open>Numeric primitives\<close>

text \<open>
  \<open>std::numeric_limits<T>::epsilon()\<close> for \<open>T = double\<close>, the instance the test harness
  (test/TestMatrix.cpp) builds.
\<close>

definition eps :: real where
  "eps = 1 / 2 ^ 52"

text \<open>
  Modelled from the spec: \<open>boost::math::hypot\<close> is a library function that is not part
  of the sources; the spec asks for a stable two-argument hypotenuse. The definition is
  the one the header keeps as a comment (\<open>sqrt(a^2 + b^2) without under/overflow\<close>).
\<close>

definition hypot :: "real \<Rightarrow> real \<Rightarrow> real" where
  "hypot a b =
     (if \<bar>a\<bar> > \<bar>b\<bar> then (let r = b / a in \<bar>a\<bar> * sqrt (1 + r * r))
      else if b \<noteq> 0 then (let r = a / b in \<bar>b\<bar> * sqrt (1 + r * r))
      else 0)"

subsection \<open>The object\<close>

text \<open>
  The class variables \<open>n\<close>, \<open>issymmetric\<close>, \<open>d\<close>, \<open>e\<close>, \<open>V\<close>, \<open>H\<close>, \<open>ort\<close>. The field
  \<open>div_ok\<close> is not in the source: it is a history variable that stays true as long as
  every division executed so far in \<open>tred2\<close>, \<open>tql2\<close>, \<open>orthes\<close> and the complex
  back-substitution of \<open>hqr2\<close> had a nonzero divisor.
\<close>

record eig =
  dim_n :: int
  issymmetric :: bool
  vec_d :: vec
  vec_e :: vec
  mat_V :: mat
  mat_H :: mat
  vec_ort :: vec
  div_ok :: bool

definition isSymmetric :: "eig \<Rightarrow> bool" where
  "isSymmetric st = issymmetric st"

definition getV :: "eig \<Rightarrow> mat" where
  "getV st = mat_V st"

definition getRealEigenvalues :: "eig \<Rightarrow> vec" where
  "getRealEigenvalues st = vec_d st"

definition getImagEigenvalues :: "eig \<Rightarrow> vec" where
  "getImagEigenvalues st = vec_e st"

subsection \<open>tred2: symmetric Householder reduction to tridiagonal form\<close>

text \<open>The branch \<open>scale == 0.0\<close> of row \<open>i\<close>.\<close>

definition tred2_degenerate :: "int \<Rightarrow> vec \<times> vec \<times> mat \<Rightarrow> vec \<times> vec \<times> mat" where
  "tred2_degenerate i = (\<lambda>(d, e, V).
     let e = e(i := d (i - 1));
         (d, V) = for_up 0 i (\<lambda>j (d, V).
                    let d = d(j := V (i - 1, j));
                        V = V((i, j) := 0);
                        V = V((j, i) := 0)
                    in (d, V)) (d, V)
     in (d, e, V))"

text \<open>Generate the Householder vector of row \<open>i\<close>; returns \<open>d\<close>, \<open>e\<close>, \<open>h\<close>.\<close>

definition tred2_generate :: "int \<Rightarrow> real \<Rightarrow> vec \<times> vec \<times> bool \<Rightarrow> vec \<times> vec \<times> real \<times> bool" where
  "tred2_generate i scale = (\<lambda>(d, e, ok).
     let (d, h, ok) = for_up 0 i (\<lambda>k (d, h, ok).
                    let ok = (ok \<and> scale \<noteq> 0);
                        d = d(k := d k / scale);
                        h = h + d k * d k
                    in (d, h, ok)) (d, 0, ok);
         f = d (i - 1);
         g = sqrt h;
         g = (if f > 0 then - g else g);
         e = e(i := scale * g);
         h = h - f * g;
         d = d(i - 1 := f - g);
         e = for_up 0 i (\<lambda>j e. e(j := 0)) e
     in (d, e, h, ok))"

text \<open>Apply the similarity transformation to the remaining columns.\<close>

definition tred2_apply :: "int \<Rightarrow> real \<Rightarrow> vec \<times> vec \<times> mat \<times> bool \<Rightarrow> vec \<times> vec \<times> mat \<times> bool" where
  "tred2_apply i h = (\<lambda>(d, e, V, ok).
     let (e, V) = for_up 0 i (\<lambda>j (e, V).
                    let f = d j;
                        V = V((j, i) := f);
                        g = e j + V (j, j) * f;
                        (g, e) = for_to (j + 1) (i - 1) (\<lambda>k (g, e).
                                   let g = g + V (k, j) * d k;
                                       e = e(k := e k + V (k, j) * f)
                                   in (g, e)) (g, e);
                        e = e(j := g)
                    in (e, V)) (e, V);
         f = 0;
         (e, f, ok) = for_up 0 i (\<lambda>j (e, f, ok).
                    let ok = (ok \<and> h \<noteq> 0);
                        e = e(j := e j / h);
                        f = f + e j * d j
                    in (e, f, ok)) (e, f, ok);
         ok = (ok \<and> h + h \<noteq> 0);
         hh = f / (h + h);
         e = for_up 0 i (\<lambda>j e. e(j := e j - hh * d j)) e;
         (d, V) = for_up 0 i (\<lambda>j (d, V).
                    let f = d j;
                        g = e j;
                        V = for_to j (i - 1) (\<lambda>k V.
                              V((k, j) := V (k, j) - (f * e k + g * d k))) V;
                        d = d(j := V (i - 1, j));
                        V = V((i, j) := 0)
                    in (d, V)) (d, V)
     in (d, e, V, ok))"

text \<open>One pass of \<^verbatim>\<open>for (int i = n-1; i > 0; --i)\<close>.\<close>

definition tred2_row :: "int \<Rightarrow> vec \<times> vec \<times> mat \<times> bool \<Rightarrow> vec \<times> vec \<times> mat \<times> bool" where
  "tred2_row i = (\<lambda>(d, e, V, ok).
     let scale = for_up 0 i (\<lambda>k scale. scale + \<bar>d k\<bar>) 0;
         h = 0
     in if scale = 0 then
          (let (d, e, V) = tred2_degenerate i (d, e, V)
           in (d(i := h), e, V, ok))
        else
          (let (d, e, h, ok) = tred2_generate i scale (d, e, ok);
               (d, e, V, ok) = tred2_apply i h (d, e, V, ok)
           in (d(i := h), e, V, ok)))"

text \<open>One pass of the accumulation loop \<^verbatim>\<open>for (int i = 0; i < n-1; ++i)\<close>.\<close>

definition tred2_accumulate :: "int \<Rightarrow> int \<Rightarrow> vec \<times> mat \<times> bool \<Rightarrow> vec \<times> mat \<times> bool" where
  "tred2_accumulate n i = (\<lambda>(d, V, ok).
     let V = V((n - 1, i) := V (i, i));
         V = V((i, i) := 1);
         h = d (i + 1);
         (d, V, ok) =
           (if h \<noteq> 0 then
              (let (d, ok) = for_to 0 i (\<lambda>k (d, ok).
                               (d(k := V (k, i + 1) / h), ok \<and> h \<noteq> 0)) (d, ok);
                   V = for_to 0 i (\<lambda>j V.
                         let g = for_to 0 i (\<lambda>k g. g + V (k, i + 1) * V (k, j)) 0
                         in for_to 0 i (\<lambda>k V. V((k, j) := V (k, j) - g * d k)) V) V
               in (d, V, ok))
            else (d, V, ok));
         V = for_to 0 i (\<lambda>k V. V((k, i + 1) := 0)) V
     in (d, V, ok))"

definition tred2 :: "eig \<Rightarrow> eig" where
  "tred2 st =
     (let n = dim_n st; d = vec_d st; e = vec_e st; V = mat_V st; ok = div_ok st;
          d = for_up 0 n (\<lambda>j d. d(j := V (n - 1, j))) d;
          (d, e, V, ok) = for_down (n - 1) 1 tred2_row (d, e, V, ok);
          (d, V, ok) = for_up 0 (n - 1) (tred2_accumulate n) (d, V, ok);
          (d, V) = for_up 0 n (\<lambda>j (d, V).
                     let d = d(j := V (n - 1, j));
                         V = V((n - 1, j) := 0)
                     in (d, V)) (d, V);
          V = V((n - 1, n - 1) := 1);
          e = e(0 := 0)
      in st\<lparr>vec_d := d, vec_e := e, mat_V := V, div_ok := ok\<rparr>)"

subsection \<open>tql2: symmetric tridiagonal QL algorithm\<close>

text \<open>
  \<^verbatim>\<open>while (m < n) { if (std::abs(e(m)) <= eps*tst1) break; ++m; }\<close>, started at
  \<open>m = l\<close>; returns the final \<open>m\<close>.
\<close>

function tql2_find_m :: "int \<Rightarrow> vec \<Rightarrow> real \<Rightarrow> int \<Rightarrow> int" where
  "tql2_find_m n e tst1 m =
     (if m < n then (if \<bar>e m\<bar> \<le> eps * tst1 then m else tql2_find_m n e tst1 (m + 1))
      else m)"
  by pat_completeness auto
termination
  by (relation "measure (\<lambda>(n, e, tst1, m). nat (n - m))") auto

declare tql2_find_m.simps [simp del]

text \<open>
  One pass of the implicit QL transformation \<^verbatim>\<open>for (int i = m-1; i >= l; --i)\<close>. The
  variables \<open>g\<close>, \<open>h\<close>, \<open>r\<close> are assigned before they are read in every pass and are
  not read after the loop, so they are local to the pass.
\<close>

definition tql2_rotate ::
  "int \<Rightarrow> int \<Rightarrow> real \<times> real \<times> real \<times> real \<times> real \<times> real \<times> vec \<times> vec \<times> mat \<times> bool
     \<Rightarrow> real \<times> real \<times> real \<times> real \<times> real \<times> real \<times> vec \<times> vec \<times> mat \<times> bool" where
  "tql2_rotate n i = (\<lambda>(c, c2, c3, s, s2, p, d, e, V, ok).
     let c3 = c2;
         c2 = c;
         s2 = s;
         g = c * e i;
         h = c * p;
         r = hypot p (e i);
         e = e(i + 1 := s * r);
         ok = (ok \<and> r \<noteq> 0);
         s = e i / r;
         c = p / r;
         p = c * d i - s * g;
         d = d(i + 1 := h + s * (c * g + s * d i));
         V = for_up 0 n (\<lambda>k V.
               let h = V (k, i + 1);
                   V = V((k, i + 1) := s * V (k, i) + c * h);
                   V = V((k, i) := c * V (k, i) - s * h)
               in V) V
     in (c, c2, c3, s, s2, p, d, e, V, ok))"

text \<open>The body of the \<^verbatim>\<open>do { ... } while\<close> loop for index \<open>l\<close>.\<close>

definition tql2_step ::
  "int \<Rightarrow> int \<Rightarrow> int \<Rightarrow> real \<times> vec \<times> vec \<times> mat \<times> bool \<Rightarrow> real \<times> vec \<times> vec \<times> mat \<times> bool" where
  "tql2_step n l m = (\<lambda>(f, d, e, V, ok).
     let g = d l;
         ok = (ok \<and> 2 * e l \<noteq> 0);
         p = (d (l + 1) - g) / (2 * e l);
         r = hypot p 1;
         r = (if p < 0 then - r else r);
         ok = (ok \<and> p + r \<noteq> 0);
         d = d(l := e l / (p + r));
         d = d(l + 1 := e l * (p + r));
         dl1 = d (l + 1);
         h = g - d l;
         d = for_up (l + 2) n (\<lambda>i d. d(i := d i - h)) d;
         f = f + h;
         p = d m;
         c = 1;
         c2 = c;
         c3 = c;
         el1 = e (l + 1);
         s = 0;
         s2 = 0;
         (c, c2, c3, s, s2, p, d, e, V, ok) =
            for_down (m - 1) l (tql2_rotate n) (c, c2, c3, s, s2, p, d, e, V, ok);
         ok = (ok \<and> dl1 \<noteq> 0);
         p = - s * s2 * c3 * el1 * e l / dl1;
         e = e(l := s * p);
         d = d(l := c * p)
     in (f, d, e, V, ok))"

text \<open>
  The \<^verbatim>\<open>do { ... } while (std::abs(e(l)) > eps*tst1)\<close> loop has no iteration bound in
  the source. Each pass takes one unit of fuel; \<open>None\<close> means that the fuel ran out
  before the loop condition failed. The counter \<open>iter\<close> of the source is incremented
  and never read; it is left out.
\<close>

fun tql2_iterate ::
  "nat \<Rightarrow> int \<Rightarrow> int \<Rightarrow> int \<Rightarrow> real \<Rightarrow> real \<times> vec \<times> vec \<times> mat \<times> bool
     \<Rightarrow> (real \<times> vec \<times> vec \<times> mat \<times> bool) option" where
  "tql2_iterate 0 n l m tst1 st = None"
| "tql2_iterate (Suc fuel) n l m tst1 st =
     (case tql2_step n l m st of
        (f, d, e, V, ok) \<Rightarrow>
          if \<bar>e l\<bar> > eps * tst1 then tql2_iterate fuel n l m tst1 (f, d, e, V, ok)
          else Some (f, d, e, V, ok))"

text \<open>One pass of \<^verbatim>\<open>for (int l = 0; l < n; ++l)\<close>.\<close>

definition tql2_l ::
  "nat \<Rightarrow> int \<Rightarrow> int \<Rightarrow> real \<times> real \<times> vec \<times> vec \<times> mat \<times> bool
     \<Rightarrow> (real \<times> real \<times> vec \<times> vec \<times> mat \<times> bool) option" where
  "tql2_l fuel n l = (\<lambda>(f, tst1, d, e, V, ok).
     let tst1 = max tst1 (\<bar>d l\<bar> + \<bar>e l\<bar>);
         m = tql2_find_m n e tst1 l
     in case (if m > l then tql2_iterate fuel n l m tst1 (f, d, e, V, ok)
              else Some (f, d, e, V, ok)) of
          None \<Rightarrow> None
        | Some (f, d, e, V, ok) \<Rightarrow>
            (let d = d(l := d l + f);
                 e = e(l := 0)
             in Some (f, tst1, d, e, V, ok)))"

text \<open>One pass of the final selection sort \<^verbatim>\<open>for (int i = 0; i < n-1; ++i)\<close>.\<close>

definition tql2_sort_step :: "int \<Rightarrow> int \<Rightarrow> vec \<times> mat \<Rightarrow> vec \<times> mat" where
  "tql2_sort_step n i = (\<lambda>(d, V).
     let k = i;
         p = d i;
         (k, p) = for_up (i + 1) n (\<lambda>j (k, p). if d j < p then (j, d j) else (k, p)) (k, p)
     in if k \<noteq> i then
          (let d = d(k := d i);
               d = d(i := p);
               V = for_up 0 n (\<lambda>j V.
                     let p = V (j, i);
                         V = V((j, i) := V (j, k));
                         V = V((j, k) := p)
                     in V) V
           in (d, V))
        else (d, V))"

definition tql2 :: "nat \<Rightarrow> eig \<Rightarrow> eig option" where
  "tql2 fuel st =
     (let n = dim_n st; d = vec_d st; e = vec_e st; V = mat_V st; ok = div_ok st;
          e = for_up 1 n (\<lambda>i e. e(i - 1 := e i)) e;
          e = e(n - 1 := 0);
          f = 0;
          tst1 = 0
      in case for_up 0 n (\<lambda>l r. Option.bind r (tql2_l fuel n l)) (Some (f, tst1, d, e, V, ok)) of
           None \<Rightarrow> None
         | Some (f, tst1, d, e, V, ok) \<Rightarrow>
             (let (d, V) = for_up 0 (n - 1) (tql2_sort_step n) (d, V)
              in Some (st\<lparr>vec_d := d, vec_e := e, mat_V := V, div_ok := ok\<rparr>)))"

subsection \<open>orthes: nonsymmetric reduction to Hessenberg form\<close>

text \<open>Compute the Householder transformation of column \<open>m-1\<close>; returns \<open>ort\<close>, \<open>h\<close>, \<open>g\<close>.\<close>

definition orthes_householder ::
  "int \<Rightarrow> int \<Rightarrow> real \<Rightarrow> mat \<Rightarrow> vec \<times> bool \<Rightarrow> vec \<times> real \<times> real \<times> bool" where
  "orthes_householder high m scale H = (\<lambda>(ort, ok).
     let h = 0;
         (ort, h, ok) = for_down high m (\<lambda>i (ort, h, ok).
              let ok = (ok \<and> scale \<noteq> 0);
                  ort = ort(i := H (i, m - 1) / scale);
                  h = h + ort i * ort i
              in (ort, h, ok)) (ort, h, ok);
         g = sqrt h;
         g = (if ort m > 0 then - g else g);
         h = h - ort m * g;
         ort = ort(m := ort m - g)
     in (ort, h, g, ok))"

text \<open>
  Apply the Householder similarity transformation: first to the columns \<open>m..n-1\<close>
  (from the left), then to the rows \<open>0..high\<close> (from the right).
\<close>

definition orthes_left :: "int \<Rightarrow> int \<Rightarrow> int \<Rightarrow> vec \<Rightarrow> real \<Rightarrow> mat \<times> bool \<Rightarrow> mat \<times> bool" where
  "orthes_left n high m ort h = (\<lambda>(H, ok).
     for_up m n (\<lambda>j (H, ok).
       let f = 0;
           f = for_down high m (\<lambda>i f. f + ort i * H (i, j)) f;
           ok = (ok \<and> h \<noteq> 0);
           f = f / h;
           H = for_to m high (\<lambda>i H. H((i, j) := H (i, j) - f * ort i)) H
       in (H, ok)) (H, ok))"

definition orthes_right :: "int \<Rightarrow> int \<Rightarrow> vec \<Rightarrow> real \<Rightarrow> mat \<times> bool \<Rightarrow> mat \<times> bool" where
  "orthes_right high m ort h = (\<lambda>(H, ok).
     for_to 0 high (\<lambda>i (H, ok).
       let f = 0;
           f = for_down high m (\<lambda>j f. f + ort j * H (i, j)) f;
           ok = (ok \<and> h \<noteq> 0);
           f = f / h;
           H = for_to m high (\<lambda>j H. H((i, j) := H (i, j) - f * ort j)) H
       in (H, ok)) (H, ok))"

text \<open>One pass of the reduction loop \<^verbatim>\<open>for (int m = low+1; m <= high-1; ++m)\<close>.\<close>

definition orthes_reduce :: "int \<Rightarrow> int \<Rightarrow> int \<Rightarrow> mat \<times> vec \<times> bool \<Rightarrow> mat \<times> vec \<times> bool" where
  "orthes_reduce n high m = (\<lambda>(H, ort, ok).
     let scale = for_to m high (\<lambda>i scale. scale + \<bar>H (i, m - 1)\<bar>) 0
     in if scale \<noteq> 0 then
          (let (ort, h, g, ok) = orthes_householder high m scale H (ort, ok);
               (H, ok) = orthes_left n high m ort h (H, ok);
               (H, ok) = orthes_right high m ort h (H, ok);
               ort = ort(m := scale * ort m);
               H = H((m, m - 1) := scale * g)
           in (H, ort, ok))
        else (H, ort, ok))"

text \<open>
  The update of the columns \<open>m..high\<close> of \<open>V\<close> in a pass of the accumulation loop:
  \<^verbatim>\<open>for (int j = m; j <= high; ++j)\<close>.
\<close>

definition orthes_accumulate_cols :: "mat \<Rightarrow> int \<Rightarrow> int \<Rightarrow> vec \<Rightarrow> mat \<times> bool \<Rightarrow> mat \<times> bool" where
  "orthes_accumulate_cols H high m ort = (\<lambda>(V, ok).
     for_to m high (\<lambda>j (V, ok).
       let g = 0;
           g = for_to m high (\<lambda>i g. g + ort i * V (i, j)) g;
           ok = (ok \<and> ort m \<noteq> 0);
           ok = (ok \<and> H (m, m - 1) \<noteq> 0);
           g = (g / ort m) / H (m, m - 1);
           V = for_to m high (\<lambda>i V. V((i, j) := V (i, j) + g * ort i)) V
       in (V, ok)) (V, ok))"

text \<open>One pass of the accumulation loop \<^verbatim>\<open>for (int m = high-1; m >= low+1; --m)\<close>.\<close>

definition orthes_accumulate :: "mat \<Rightarrow> int \<Rightarrow> int \<Rightarrow> vec \<times> mat \<times> bool \<Rightarrow> vec \<times> mat \<times> bool" where
  "orthes_accumulate H high m = (\<lambda>(ort, V, ok).
     if H (m, m - 1) \<noteq> 0 then
       (let ort = for_to (m + 1) high (\<lambda>i ort. ort(i := H (i, m - 1))) ort;
            (V, ok) = orthes_accumulate_cols H high m ort (V, ok)
        in (ort, V, ok))
     else (ort, V, ok))"

text \<open>
  Modelled from the spec: \<open>identity_matrix<T>(n)\<close> is the library's identity-matrix
  constructor; its entries are the ones of the loop the header keeps as a comment,
  \<^verbatim>\<open>V(i,j) = (i == j ? 1.0 : 0.0)\<close>.
\<close>

definition identity_matrix :: mat where
  "identity_matrix = (\<lambda>(i, j). if i = j then 1 else 0)"

definition orthes :: "eig \<Rightarrow> eig" where
  "orthes st =
     (let n = dim_n st; H = mat_H st; ort = vec_ort st; ok = div_ok st;
          low = 0;
          high = n - 1;
          (H, ort, ok) = for_to (low + 1) (high - 1) (orthes_reduce n high) (H, ort, ok);
          V = identity_matrix;
          (ort, V, ok) = for_down (high - 1) (low + 1) (orthes_accumulate H high) (ort, V, ok)
      in st\<lparr>mat_H := H, vec_ort := ort, mat_V := V, div_ok := ok\<rparr>)"

subsection \<open>hqr2: nonsymmetric reduction from Hessenberg to real Schur form\<close>

text \<open>
  The local variables of \<open>hqr2\<close> together with the class variables it writes. The loops
  below take from this record the variables they assign and give them back.
\<close>

record hqr2_vars =
  var_H :: mat
  var_V :: mat
  var_d :: vec
  var_e :: vec
  var_n :: int
  var_iter :: int
  var_exshift :: real
  var_p :: real
  var_q :: real
  var_r :: real
  var_s :: real
  var_z :: real
  var_t :: real
  var_w :: real
  var_x :: real
  var_y :: real
  var_ok :: bool

text \<open>
  \<^verbatim>\<open>while (l > low) { s = ...; if (s == 0.0) s = norm; if (std::abs(H(l,l-1)) < eps * s) break; --l; }\<close>;
  returns the final \<open>l\<close> and \<open>s\<close>. The matrix norm \<open>norm\<close> of the source is written
  \<open>anorm\<close>.
\<close>

function hqr2_find_l :: "mat \<Rightarrow> real \<Rightarrow> int \<Rightarrow> int \<Rightarrow> real \<Rightarrow> int \<times> real" where
  "hqr2_find_l H anorm low l s =
     (if l > low then
        (let s = \<bar>H (l - 1, l - 1)\<bar> + \<bar>H (l, l)\<bar>;
             s = (if s = 0 then anorm else s)
         in if \<bar>H (l, l - 1)\<bar> < eps * s then (l, s)
            else hqr2_find_l H anorm low (l - 1) s)
      else (l, s))"
  by pat_completeness auto
termination
  by (relation "measure (\<lambda>(H, anorm, low, l, s). nat (l - low))") auto

declare hqr2_find_l.simps [simp del]

text \<open>The branch \<open>l == n\<close>: one root found.\<close>

definition hqr2_one_root :: "hqr2_vars \<Rightarrow> hqr2_vars" where
  "hqr2_one_root st =
     (let H = var_H st; d = var_d st; e = var_e st; n = var_n st; exshift = var_exshift st;
          H = H((n, n) := H (n, n) + exshift);
          d = d(n := H (n, n));
          e = e(n := 0);
          n = n - 1;
          iter = 0
      in st\<lparr>var_H := H, var_d := d, var_e := e, var_n := n, var_iter := iter\<rparr>)"

text \<open>The plane rotation of the real pair, applied to a pair of rows or columns.\<close>

definition hqr2_two_roots_real :: "int \<Rightarrow> real \<Rightarrow> real \<Rightarrow> hqr2_vars \<Rightarrow> hqr2_vars" where
  "hqr2_two_roots_real nn x z st =
     (let H = var_H st; V = var_V st; d = var_d st; e = var_e st; n = var_n st;
          p = var_p st; w = var_w st;
          low = 0;
          high = nn - 1;
          z = (if p \<ge> 0 then p + z else p - z);
          d = d(n - 1 := x + z);
          d = d(n := d (n - 1));
          d = (if z \<noteq> 0 then d(n := x - w / z) else d);
          e = e(n - 1 := 0);
          e = e(n := 0);
          x = H (n, n - 1);
          s = \<bar>x\<bar> + \<bar>z\<bar>;
          p = x / s;
          q = z / s;
          r = sqrt (p * p + q * q);
          p = p / r;
          q = q / r;
          (H, z) = for_up (n - 1) nn (\<lambda>j (H, z).
               let z = H (n - 1, j);
                   H = H((n - 1, j) := q * z + p * H (n, j));
                   H = H((n, j) := H (n, j) * q);
                   H = H((n, j) := H (n, j) - p * z)
               in (H, z)) (H, z);
          (H, z) = for_to 0 n (\<lambda>i (H, z).
               let z = H (i, n - 1);
                   H = H((i, n - 1) := q * z + p * H (i, n));
                   H = H((i, n) := H (i, n) * q);
                   H = H((i, n) := H (i, n) - p * z)
               in (H, z)) (H, z);
          (V, z) = for_to low high (\<lambda>i (V, z).
               let z = V (i, n - 1);
                   V = V((i, n - 1) := q * z + p * V (i, n));
                   V = V((i, n) := V (i, n) * q);
                   V = V((i, n) := V (i, n) - p * z)
               in (V, z)) (V, z)
      in st\<lparr>var_H := H, var_V := V, var_d := d, var_e := e,
            var_p := p, var_q := q, var_r := r, var_s := s, var_z := z, var_x := x\<rparr>)"

text \<open>The branch \<open>l == n-1\<close>: two roots found, a real pair or a complex pair.\<close>

definition hqr2_two_roots :: "int \<Rightarrow> hqr2_vars \<Rightarrow> hqr2_vars" where
  "hqr2_two_roots nn st =
     (let H = var_H st; d = var_d st; e = var_e st; n = var_n st; exshift = var_exshift st;
          w = H (n, n - 1) * H (n - 1, n);
          p = (H (n - 1, n - 1) - H (n, n)) / 2;
          q = p * p + w;
          z = sqrt \<bar>q\<bar>;
          H = H((n, n) := H (n, n) + exshift);
          H = H((n - 1, n - 1) := H (n - 1, n - 1) + exshift);
          x = H (n, n);
          st = st\<lparr>var_H := H, var_p := p, var_q := q, var_z := z, var_w := w, var_x := x\<rparr>;
          st = (if q \<ge> 0 then hqr2_two_roots_real nn x z st
                else
                  (let d = d(n - 1 := x + p);
                       d = d(n := x + p);
                       e = e(n - 1 := z);
                       e = e(n := - z)
                   in st\<lparr>var_d := d, var_e := e\<rparr>));
          n = n - 2;
          iter = 0
      in st\<lparr>var_n := n, var_iter := iter\<rparr>)"

text \<open>
  No convergence yet: form the shift, with the two ad hoc shifts at \<open>iter == 10\<close> and
  \<open>iter == 30\<close>, and count the iteration.
\<close>

definition hqr2_form_shift :: "int \<Rightarrow> hqr2_vars \<Rightarrow> hqr2_vars" where
  "hqr2_form_shift l st =
     (let H = var_H st; n = var_n st; iter = var_iter st; exshift = var_exshift st;
          s = var_s st;
          low = 0;
          x = H (n, n);
          y = 0;
          w = 0;
          (y, w) = (if l < n then (H (n - 1, n - 1), H (n, n - 1) * H (n - 1, n)) else (y, w));
          (exshift, H, s, x, y, w) =
            (if iter = 10 then
               (let exshift = exshift + x;
                    H = for_to low n (\<lambda>i H. H((i, i) := H (i, i) - x)) H;
                    s = \<bar>H (n, n - 1)\<bar> + \<bar>H (n - 1, n - 2)\<bar>;
                    y = 0.75 * s;
                    x = y;
                    w = - 0.4375 * s * s
                in (exshift, H, s, x, y, w))
             else (exshift, H, s, x, y, w));
          (exshift, H, s, x, y, w) =
            (if iter = 30 then
               (let s = (y - x) / 2;
                    s = s * s;
                    s = s + w
                in if s > 0 then
                     (let s = sqrt s;
                          s = (if y < x then - s else s);
                          s = x - w / ((y - x) / 2 + s);
                          H = for_to low n (\<lambda>i H. H((i, i) := H (i, i) - s)) H;
                          exshift = exshift + s;
                          w = 0.964;
                          y = w;
                          x = y
                      in (exshift, H, s, x, y, w))
                   else (exshift, H, s, x, y, w))
             else (exshift, H, s, x, y, w));
          iter = iter + 1
      in st\<lparr>var_H := H, var_iter := iter, var_exshift := exshift,
            var_s := s, var_w := w, var_x := x, var_y := y\<rparr>)"

text \<open>
  Look for two consecutive small sub-diagonal elements:
  \<^verbatim>\<open>while (m >= l) { ...; if (m == l) break; if (...) break; --m; }\<close>; returns the final
  \<open>m\<close>, \<open>p\<close>, \<open>q\<close>, \<open>r\<close>, \<open>s\<close>, \<open>z\<close>.
\<close>

function hqr2_find_m ::
  "mat \<Rightarrow> int \<Rightarrow> real \<Rightarrow> real \<Rightarrow> real \<Rightarrow> int \<Rightarrow> real \<times> real \<times> real \<times> real \<times> real
     \<Rightarrow> int \<times> real \<times> real \<times> real \<times> real \<times> real" where
  "hqr2_find_m H l x y w m pqrsz =
     (if m \<ge> l then
        (let z = H (m, m);
             r = x - z;
             s = y - z;
             p = (r * s - w) / H (m + 1, m) + H (m, m + 1);
             q = H (m + 1, m + 1) - z - r - s;
             r = H (m + 2, m + 1);
             s = \<bar>p\<bar> + \<bar>q\<bar> + \<bar>r\<bar>;
             p = p / s;
             q = q / s;
             r = r / s
         in if m = l then (m, p, q, r, s, z)
            else if \<bar>H (m, m - 1)\<bar> * (\<bar>q\<bar> + \<bar>r\<bar>) <
                    eps * (\<bar>p\<bar> * (\<bar>H (m - 1, m - 1)\<bar> + \<bar>z\<bar> + \<bar>H (m + 1, m + 1)\<bar>))
                 then (m, p, q, r, s, z)
            else hqr2_find_m H l x y w (m - 1) (p, q, r, s, z))
      else (m, pqrsz))"
  by pat_completeness auto
termination
  by (relation "measure (\<lambda>(H, l, x, y, w, m, pqrsz). nat (m + 1 - l))") auto

declare hqr2_find_m.simps [simp del]

text \<open>
  The part of a pass of the double QR step after the \<open>continue\<close>: the reflection of
  rows and columns \<open>k\<close>, \<open>k+1\<close>, \<open>k+2\<close>.
\<close>

definition hqr2_qr_apply ::
  "int \<Rightarrow> int \<Rightarrow> int \<Rightarrow> int \<Rightarrow> int \<Rightarrow> bool
     \<Rightarrow> mat \<times> mat \<times> real \<times> real \<times> real \<times> real \<times> real \<times> real \<times> real
     \<Rightarrow> mat \<times> mat \<times> real \<times> real \<times> real \<times> real \<times> real \<times> real \<times> real" where
  "hqr2_qr_apply nn l m n k notlast = (\<lambda>(H, V, p, q, r, s, x, y, z).
     let low = 0;
         high = nn - 1;
         s = sqrt (p * p + q * q + r * r);
         s = (if p < 0 then - s else s)
     in if s \<noteq> 0 then
          (let H = (if k \<noteq> m then H((k, k - 1) := - s * x)
                    else if l \<noteq> m then H((k, k - 1) := - H (k, k - 1))
                    else H);
               p = p + s;
               x = p / s;
               y = q / s;
               z = r / s;
               q = q / p;
               r = r / p;
               (H, p) = for_up k nn (\<lambda>j (H, p).
                    let p = H (k, j) + q * H (k + 1, j);
                        (H, p) = (if notlast then
                                    (let p = p + r * H (k + 2, j);
                                         H = H((k + 2, j) := H (k + 2, j) - p * z)
                                     in (H, p))
                                  else (H, p));
                        H = H((k, j) := H (k, j) - p * x);
                        H = H((k + 1, j) := H (k + 1, j) - p * y)
                    in (H, p)) (H, p);
               (H, p) = for_to 0 (min n (k + 3)) (\<lambda>i (H, p).
                    let p = x * H (i, k) + y * H (i, k + 1);
                        (H, p) = (if notlast then
                                    (let p = p + z * H (i, k + 2);
                                         H = H((i, k + 2) := H (i, k + 2) - p * r)
                                     in (H, p))
                                  else (H, p));
                        H = H((i, k) := H (i, k) - p);
                        H = H((i, k + 1) := H (i, k + 1) - p * q)
                    in (H, p)) (H, p);
               (V, p) = for_to low high (\<lambda>i (V, p).
                    let p = x * V (i, k) + y * V (i, k + 1);
                        (V, p) = (if notlast then
                                    (let p = p + z * V (i, k + 2);
                                         V = V((i, k + 2) := V (i, k + 2) - p * r)
                                     in (V, p))
                                  else (V, p));
                        V = V((i, k) := V (i, k) - p);
                        V = V((i, k + 1) := V (i, k + 1) - p * q)
                    in (V, p)) (V, p)
           in (H, V, p, q, r, s, x, y, z))
        else (H, V, p, q, r, s, x, y, z))"

text \<open>One pass of the double QR step \<^verbatim>\<open>for (int k = m; k <= n-1; ++k)\<close>.\<close>

definition hqr2_qr_k ::
  "int \<Rightarrow> int \<Rightarrow> int \<Rightarrow> int \<Rightarrow> int
     \<Rightarrow> mat \<times> mat \<times> real \<times> real \<times> real \<times> real \<times> real \<times> real \<times> real
     \<Rightarrow> mat \<times> mat \<times> real \<times> real \<times> real \<times> real \<times> real \<times> real \<times> real" where
  "hqr2_qr_k nn l m n k = (\<lambda>(H, V, p, q, r, s, x, y, z).
     let notlast = (k \<noteq> n - 1)
     in if k \<noteq> m then
          (let p = H (k, k - 1);
               q = H (k + 1, k - 1);
               r = (if notlast then H (k + 2, k - 1) else 0);
               x = \<bar>p\<bar> + \<bar>q\<bar> + \<bar>r\<bar>
           in if x = 0 then (H, V, p, q, r, s, x, y, z)
              else
                (let p = p / x;
                     q = q / x;
                     r = r / x
                 in hqr2_qr_apply nn l m n k notlast (H, V, p, q, r, s, x, y, z)))
        else hqr2_qr_apply nn l m n k notlast (H, V, p, q, r, s, x, y, z))"

text \<open>The branch "no convergence yet" of the outer loop.\<close>

definition hqr2_qr_sweep :: "int \<Rightarrow> int \<Rightarrow> hqr2_vars \<Rightarrow> hqr2_vars" where
  "hqr2_qr_sweep nn l st =
     (let st = hqr2_form_shift l st;
          H = var_H st; V = var_V st; n = var_n st;
          p = var_p st; q = var_q st; r = var_r st; s = var_s st; z = var_z st;
          w = var_w st; x = var_x st; y = var_y st;
          m = n - 2;
          (m, p, q, r, s, z) = hqr2_find_m H l x y w m (p, q, r, s, z);
          H = for_to (m + 2) n (\<lambda>i H.
                let H = H((i, i - 2) := 0)
                in if i > m + 2 then H((i, i - 3) := 0) else H) H;
          (H, V, p, q, r, s, x, y, z) =
             for_to m (n - 1) (hqr2_qr_k nn l m n) (H, V, p, q, r, s, x, y, z)
      in st\<lparr>var_H := H, var_V := V, var_p := p, var_q := q, var_r := r, var_s := s,
            var_z := z, var_x := x, var_y := y\<rparr>)"

text \<open>The body of the outer loop \<^verbatim>\<open>while (n >= low)\<close>.\<close>

definition hqr2_iteration :: "int \<Rightarrow> real \<Rightarrow> hqr2_vars \<Rightarrow> hqr2_vars" where
  "hqr2_iteration nn anorm st =
     (let n = var_n st;
          low = 0;
          l = n;
          (l, s) = hqr2_find_l (var_H st) anorm low l (var_s st);
          st = st\<lparr>var_s := s\<rparr>
      in if l = n then hqr2_one_root st
         else if l = n - 1 then hqr2_two_roots nn st
         else hqr2_qr_sweep nn l st)"

text \<open>
  The outer loop has no iteration bound in the source. Each pass takes one unit of
  fuel; \<open>None\<close> means that the fuel ran out while \<open>n >= low\<close> still held.
\<close>

fun hqr2_main :: "nat \<Rightarrow> int \<Rightarrow> real \<Rightarrow> hqr2_vars \<Rightarrow> hqr2_vars option" where
  "hqr2_main 0 nn anorm st = (if var_n st \<ge> 0 then None else Some st)"
| "hqr2_main (Suc fuel) nn anorm st =
     (if var_n st \<ge> 0 then hqr2_main fuel nn anorm (hqr2_iteration nn anorm st)
      else Some st)"

text \<open>
  Back-substitution, real vector (\<open>q == 0\<close>): one pass of
  \<^verbatim>\<open>for (int i = n-1; i >= 0; --i)\<close>. The loop state is \<open>H\<close>, \<open>l\<close> and the scalars the
  pass assigns; \<open>p\<close> is not assigned in this loop.
\<close>

definition hqr2_back_real ::
  "real \<Rightarrow> vec \<Rightarrow> vec \<Rightarrow> int \<Rightarrow> real \<Rightarrow> int
     \<Rightarrow> mat \<times> int \<times> real \<times> real \<times> real \<times> real \<times> real \<times> real \<times> real \<times> real
     \<Rightarrow> mat \<times> int \<times> real \<times> real \<times> real \<times> real \<times> real \<times> real \<times> real \<times> real" where
  "hqr2_back_real anorm d e n p i = (\<lambda>(H, l, q, r, s, t, w, x, y, z).
     let w = H (i, i) - p;
         r = 0;
         r = for_to l n (\<lambda>j r. r + H (i, j) * H (j, n)) r
     in if e i < 0 then
          (let z = w;
               s = r
           in (H, l, q, r, s, t, w, x, y, z))
        else
          (let l = i;
               (H, q, t, x, y) =
                 (if e i = 0 then
                    (if w \<noteq> 0 then (H((i, n) := - r / w), q, t, x, y)
                     else (H((i, n) := - r / (eps * anorm)), q, t, x, y))
                  else
                    (let x = H (i, i + 1);
                         y = H (i + 1, i);
                         q = (d i - p) * (d i - p) + e i * e i;
                         t = (x * s - z * r) / q;
                         H = H((i, n) := t);
                         H = (if \<bar>x\<bar> > \<bar>z\<bar> then H((i + 1, n) := (- r - w * t) / x)
                              else H((i + 1, n) := (- s - y * t) / z))
                     in (H, q, t, x, y)));
               t = \<bar>H (i, n)\<bar>;
               H = (if (eps * t) * t > 1 then
                      for_to i n (\<lambda>j H. H((j, n) := H (j, n) / t)) H
                    else H)
           in (H, l, q, r, s, t, w, x, y, z)))"

text \<open>
  Back-substitution, complex vector (\<open>q < 0\<close>). \<open>std::complex<T>\<close> is \<^typ>\<open>complex\<close>.
  First the entries of row \<open>i\<close> (and, for a 2 by 2 block, of row \<open>i+1\<close>) of the columns
  \<open>n-1\<close> and \<open>n\<close>: the branch \<open>e(i) >= 0\<close> of a pass, down to "Overflow control".
\<close>

definition hqr2_complex_solve ::
  "real \<Rightarrow> vec \<Rightarrow> vec \<Rightarrow> int \<Rightarrow> real \<Rightarrow> real \<Rightarrow> int \<Rightarrow> real \<Rightarrow> real \<Rightarrow> real \<Rightarrow> real \<Rightarrow> real \<Rightarrow> real
     \<Rightarrow> mat \<times> real \<times> real \<times> bool \<Rightarrow> mat \<times> real \<times> real \<times> bool" where
  "hqr2_complex_solve anorm d e n p q i ra sa r s w z = (\<lambda>(H, x, y, ok).
     if e i = 0 then
       (let ctmp = Complex (- ra) (- sa);
            ctmp2 = Complex w q;
            ok = (ok \<and> ctmp2 \<noteq> 0);
            ctmp = ctmp / ctmp2;
            H = H((i, n - 1) := Re ctmp);
            H = H((i, n) := Im ctmp)
        in (H, x, y, ok))
     else
       (let x = H (i, i + 1);
            y = H (i + 1, i);
            vr = (d i - p) * (d i - p) + e i * e i - q * q;
            vi = (d i - p) * 2 * q;
            vr = (if vr = 0 \<and> vi = 0 then
                    eps * anorm * (\<bar>w\<bar> + \<bar>q\<bar> + \<bar>x\<bar> + \<bar>y\<bar> + \<bar>z\<bar>)
                  else vr);
            ctmp = Complex (x * r - z * ra + q * sa) (x * s - z * sa - q * ra);
            ctmp2 = Complex vr vi;
            ok = (ok \<and> ctmp2 \<noteq> 0);
            ctmp = ctmp / ctmp2;
            H = H((i, n - 1) := Re ctmp);
            H = H((i, n) := Im ctmp)
        in if \<bar>x\<bar> > \<bar>z\<bar> + \<bar>q\<bar> then
             (let ok = (ok \<and> x \<noteq> 0);
                  H = H((i + 1, n - 1) := (- ra - w * H (i, n - 1) + q * H (i, n)) / x);
                  ok = (ok \<and> x \<noteq> 0);
                  H = H((i + 1, n) := (- sa - w * H (i, n) - q * H (i, n - 1)) / x)
              in (H, x, y, ok))
           else
             (let ctmp = Complex (- r - y * H (i, n - 1)) (- s - y * H (i, n));
                  ctmp2 = Complex z q;
                  ok = (ok \<and> ctmp2 \<noteq> 0);
                  ctmp = ctmp / ctmp2;
                  H = H((i + 1, n - 1) := Re ctmp);
                  H = H((i + 1, n) := Im ctmp)
              in (H, x, y, ok))))"

text \<open>The rescaling loop of "Overflow control": \<^verbatim>\<open>for (int j = i; j <= n; ++j)\<close>.\<close>

definition hqr2_complex_rescale :: "int \<Rightarrow> int \<Rightarrow> real \<Rightarrow> mat \<times> bool \<Rightarrow> mat \<times> bool" where
  "hqr2_complex_rescale i n t = (\<lambda>(H, ok).
     for_to i n (\<lambda>j (H, ok).
       let ok = (ok \<and> t \<noteq> 0);
           H = H((j, n - 1) := H (j, n - 1) / t);
           ok = (ok \<and> t \<noteq> 0);
           H = H((j, n) := H (j, n) / t)
       in (H, ok)) (H, ok))"

text \<open>
  One pass of \<^verbatim>\<open>for (int i = n-2; i >= 0; --i)\<close>. \<open>ra\<close>, \<open>sa\<close>, \<open>vr\<close>, \<open>vi\<close> are declared
  inside the pass. Neither \<open>p\<close> nor \<open>q\<close> is assigned here.
\<close>

definition hqr2_back_complex ::
  "real \<Rightarrow> vec \<Rightarrow> vec \<Rightarrow> int \<Rightarrow> real \<Rightarrow> real \<Rightarrow> int
     \<Rightarrow> mat \<times> int \<times> real \<times> real \<times> real \<times> real \<times> real \<times> real \<times> real \<times> bool
     \<Rightarrow> mat \<times> int \<times> real \<times> real \<times> real \<times> real \<times> real \<times> real \<times> real \<times> bool" where
  "hqr2_back_complex anorm d e n p q i = (\<lambda>(H, l, r, s, t, w, x, y, z, ok).
     let ra = 0;
         sa = 0;
         (ra, sa) = for_to l n (\<lambda>j (ra, sa).
                      let ra = ra + H (i, j) * H (j, n - 1);
                          sa = sa + H (i, j) * H (j, n)
                      in (ra, sa)) (ra, sa);
         w = H (i, i) - p
     in if e i < 0 then
          (let z = w;
               r = ra;
               s = sa
           in (H, l, r, s, t, w, x, y, z, ok))
        else
          (let l = i;
               (H, x, y, ok) = hqr2_complex_solve anorm d e n p q i ra sa r s w z (H, x, y, ok);
               t = max \<bar>H (i, n - 1)\<bar> \<bar>H (i, n)\<bar>;
               (H, ok) = (if (eps * t) * t > 1 then hqr2_complex_rescale i n t (H, ok)
                          else (H, ok))
           in (H, l, r, s, t, w, x, y, z, ok)))"

text \<open>
  The start of the complex vector: "last vector component imaginary so matrix is
  triangular".
\<close>

definition hqr2_complex_last :: "int \<Rightarrow> real \<Rightarrow> real \<Rightarrow> mat \<times> bool \<Rightarrow> mat \<times> bool" where
  "hqr2_complex_last n p q = (\<lambda>(H, ok).
     let (H, ok) =
           (if \<bar>H (n, n - 1)\<bar> > \<bar>H (n - 1, n)\<bar> then
              (let ok = (ok \<and> H (n, n - 1) \<noteq> 0);
                   H = H((n - 1, n - 1) := q / H (n, n - 1));
                   ok = (ok \<and> H (n, n - 1) \<noteq> 0);
                   H = H((n - 1, n) := - (H (n, n) - p) / H (n, n - 1))
               in (H, ok))
            else
              (let ctmp = Complex 0 (- H (n - 1, n));
                   ctmp2 = Complex (H (n - 1, n - 1) - p) q;
                   ok = (ok \<and> ctmp2 \<noteq> 0);
                   ctmp = ctmp / ctmp2;
                   H = H((n - 1, n - 1) := Re ctmp);
                   H = H((n - 1, n) := Im ctmp)
               in (H, ok)));
         H = H((n, n - 1) := 0);
         H = H((n, n) := 1)
     in (H, ok))"

text \<open>One pass of the back-substitution loop \<^verbatim>\<open>for (n = nn-1; n >= 0; --n)\<close>.\<close>

definition hqr2_back :: "real \<Rightarrow> int \<Rightarrow> hqr2_vars \<Rightarrow> hqr2_vars" where
  "hqr2_back anorm n st =
     (let H = var_H st; d = var_d st; e = var_e st; ok = var_ok st;
          r = var_r st; s = var_s st; t = var_t st; w = var_w st; x = var_x st;
          y = var_y st; z = var_z st;
          p = d n;
          q = e n;
          st = st\<lparr>var_n := n, var_p := p, var_q := q\<rparr>
      in if q = 0 then
           (let l = n;
                H = H((n, n) := 1);
                (H, l, q, r, s, t, w, x, y, z) =
                   for_down (n - 1) 0 (hqr2_back_real anorm d e n p) (H, l, q, r, s, t, w, x, y, z)
            in st\<lparr>var_H := H, var_q := q, var_r := r, var_s := s, var_t := t,
                  var_w := w, var_x := x, var_y := y, var_z := z\<rparr>)
         else if q < 0 then
           (let l = n - 1;
                (H, ok) = hqr2_complex_last n p q (H, ok);
                (H, l, r, s, t, w, x, y, z, ok) =
                   for_down (n - 2) 0 (hqr2_back_complex anorm d e n p q)
                     (H, l, r, s, t, w, x, y, z, ok)
            in st\<lparr>var_H := H, var_r := r, var_s := s, var_t := t, var_w := w,
                  var_x := x, var_y := y, var_z := z, var_ok := ok\<rparr>)
         else st)"

text \<open>
  Store the roots isolated by \<open>balanc\<close> and compute the matrix norm: the first loop of
  \<open>hqr2\<close>, with \<open>low = 0\<close> and \<open>high = nn-1\<close>.
\<close>

definition hqr2_norm :: "int \<Rightarrow> mat \<Rightarrow> vec \<times> vec \<Rightarrow> vec \<times> vec \<times> real" where
  "hqr2_norm nn H = (\<lambda>(d, e).
     let low = 0;
         high = nn - 1;
         anorm = 0
     in for_up 0 nn (\<lambda>i (d, e, anorm).
          let (d, e) = (if i < low \<or> i > high then (d(i := H (i, i)), e(i := 0))
                        else (d, e));
              anorm = for_up (max (i - 1) 0) nn (\<lambda>j anorm. anorm + \<bar>H (i, j)\<bar>) anorm
          in (d, e, anorm)) (d, e, anorm))"

text \<open>
  The part of \<open>hqr2\<close> after the outer loop: the early return for \<open>norm == 0.0\<close>, the
  back-substitution, the vectors of isolated roots, and the back transformation.
\<close>

definition hqr2_vectors :: "real \<Rightarrow> eig \<Rightarrow> hqr2_vars \<Rightarrow> eig" where
  "hqr2_vectors anorm st vars =
     (if anorm = 0 then
        st\<lparr>vec_d := var_d vars, vec_e := var_e vars, mat_V := var_V vars,
           mat_H := var_H vars, div_ok := var_ok vars\<rparr>
      else
        (let nn = dim_n st;
             low = 0;
             high = nn - 1;
             vars = for_down (nn - 1) 0 (hqr2_back anorm) vars;
             H = var_H vars;
             V = var_V vars;
             V = for_up 0 nn (\<lambda>i V.
                   if i < low \<or> i > high then
                     for_up i nn (\<lambda>j V. V((i, j) := H (i, j))) V
                   else V) V;
             (V, z) = for_down (nn - 1) low (\<lambda>j (V, z).
                   for_to low high (\<lambda>i (V, z).
                     let z = 0;
                         z = for_to low (min j high) (\<lambda>k z. z + V (i, k) * H (k, j)) z;
                         V = V((i, j) := z)
                     in (V, z)) (V, z)) (V, var_z vars)
         in st\<lparr>vec_d := var_d vars, vec_e := var_e vars, mat_V := V,
               mat_H := H, div_ok := var_ok vars\<rparr>))"

text \<open>
  The variables at the start of the outer loop. \<open>t\<close>, \<open>w\<close>, \<open>x\<close>, \<open>y\<close> are declared
  without an initial value: the argument \<open>loc\<close> gives the values they happen to hold.
\<close>

definition hqr2_init :: "real \<times> real \<times> real \<times> real \<Rightarrow> eig \<Rightarrow> vec \<Rightarrow> vec \<Rightarrow> hqr2_vars" where
  "hqr2_init loc st d e =
     (let nn = dim_n st;
          n = nn - 1;
          exshift = 0;
          (t, w, x, y) = loc;
          iter = 0
      in \<lparr>var_H = mat_H st, var_V = mat_V st, var_d = d, var_e = e, var_n = n,
          var_iter = iter, var_exshift = exshift, var_p = 0, var_q = 0, var_r = 0,
          var_s = 0, var_z = 0, var_t = t, var_w = w, var_x = x, var_y = y,
          var_ok = div_ok st\<rparr>)"

text \<open>The whole of \<open>hqr2\<close>.\<close>

definition hqr2 :: "nat \<Rightarrow> real \<times> real \<times> real \<times> real \<Rightarrow> eig \<Rightarrow> eig option" where
  "hqr2 fuel loc st =
     (let nn = dim_n st;
          (d, e, anorm) = hqr2_norm nn (mat_H st) (vec_d st, vec_e st);
          vars = hqr2_init loc st d e
      in case hqr2_main fuel nn anorm vars of
           None \<Rightarrow> None
         | Some vars \<Rightarrow> Some (hqr2_vectors anorm st vars))"

subsection \<open>Input matrices and errors\<close>

text \<open>
  Modelled from the spec: the dense matrix container \<open>matrix<T,L>\<close> is a library type
  that is not part of the sources. It has a row count \<open>size1()\<close>, a column count
  \<open>size2()\<close> and indexed entries.
\<close>

record matrix =
  size1 :: nat
  size2 :: nat
  data :: mat

text \<open>
  Modelled from the spec: the symmetric-packed container \<open>symmetric_matrix<T,TRI,L>\<close>
  is a library type that is not part of the sources. It has one size, returned by both
  \<open>size1()\<close> and \<open>size2()\<close>, and stores one triangle (the lower one for the default
  \<open>TRI = lower\<close>); the entry \<open>(i,j)\<close> above the diagonal is the stored entry \<open>(j,i)\<close>.
\<close>

record symmetric_matrix =
  size_sym :: nat
  data_sym :: mat

definition sym_at :: "symmetric_matrix \<Rightarrow> mat" where
  "sym_at A = (\<lambda>(i, j). if j \<le> i then data_sym A (i, j) else data_sym A (j, i))"

text \<open>
  \<open>bad_size\<close> and \<open>bad_index\<close> are the two exceptions of the container library that the
  code below can raise.

  Modelled from the spec: the macro \<open>BOOST_UBLAS_CHECK(expression, e)\<close> is not part of
  the sources; following the spec (the constructor "fails with a size-mismatch error if
  not square") it raises \<open>e\<close> when the expression is false. The same check guards
  every element access \<open>D(i,j)\<close> of the container with \<open>bad_index\<close>.
\<close>

datatype error = bad_size | bad_index

text \<open>
  Modelled from the spec: \<open>is_symmetric\<close> is a library function that is not part of the
  sources; the spec describes it as the test whether the matrix equals its own
  transpose exactly. The loops are the ones the constructor keeps as a comment: over
  \<open>j\<close> and \<open>i\<close>, comparing \<open>A(i,j) == A(j,i)\<close> while \<open>issymmetric\<close> is still true.
  A matrix that is not square is not its own transpose.
\<close>

definition is_symmetric :: "matrix \<Rightarrow> bool" where
  "is_symmetric A =
     (size1 A = size2 A \<and>
      (let n = int (size2 A)
       in for_up 0 n (\<lambda>j issym.
            for_up 0 n (\<lambda>i issym. if issym then data A (i, j) = data A (j, i) else issym) issym)
          True))"

subsection \<open>Constructors\<close>

text \<open>
  \<open>EigenvalueDecomposition(const Matrix& A)\<close>. The argument \<open>mem\<close> is the storage of
  the object before construction: \<open>resize(n, false)\<close> does not initialise the entries of
  \<open>V\<close>, \<open>d\<close>, \<open>e\<close>, \<open>H\<close>, \<open>ort\<close>. The result is \<open>None\<close> when the fuel does not suffice,
  \<open>Some (Inl err)\<close> when the constructor throws, \<open>Some (Inr st)\<close> when it returns.
\<close>

definition EigenvalueDecomposition ::
  "nat \<Rightarrow> real \<times> real \<times> real \<times> real \<Rightarrow> eig \<Rightarrow> matrix \<Rightarrow> (error + eig) option" where
  "EigenvalueDecomposition fuel loc mem A =
     (if size1 A \<noteq> size2 A then Some (Inl bad_size)
      else
        (let n = int (size2 A);
             st = mem\<lparr>dim_n := n, div_ok := True\<rparr>;
             st = st\<lparr>issymmetric := is_symmetric A\<rparr>
         in if issymmetric st then
              (let st = st\<lparr>mat_V := data A\<rparr>;
                   st = tred2 st
               in map_option Inr (tql2 fuel st))
            else
              (let H = mat_H st;
                   H = for_up 0 n (\<lambda>j H. for_up 0 n (\<lambda>i H. H((i, j) := data A (i, j))) H) H;
                   st = st\<lparr>mat_H := H\<rparr>;
                   st = orthes st
               in map_option Inr (hqr2 fuel loc st))))"

text \<open>
  \<open>EigenvalueDecomposition(const SymmetricMatrix& A)\<close>. The shape check compares the
  one size of the container with itself.
\<close>

definition EigenvalueDecomposition_sym ::
  "nat \<Rightarrow> eig \<Rightarrow> symmetric_matrix \<Rightarrow> (error + eig) option" where
  "EigenvalueDecomposition_sym fuel mem A =
     (if size_sym A \<noteq> size_sym A then Some (Inl bad_size)
      else
        (let n = int (size_sym A);
             st = mem\<lparr>dim_n := n, div_ok := True\<rparr>;
             st = st\<lparr>issymmetric := True\<rparr>;
             st = st\<lparr>mat_V := sym_at A\<rparr>;
             st = tred2 st
         in map_option Inr (tql2 fuel st)))"

subsection \<open>getD: the block diagonal eigenvalue matrix\<close>

text \<open>
  One pass of \<^verbatim>\<open>for (int i = 0; i < n; ++i)\<close>. The write \<open>D(i,i)\<close> is inside the matrix
  for every \<open>i\<close> of the loop; the writes \<open>D(i,i+1)\<close> and \<open>D(i,i-1)\<close> are checked against
  the column range \<open>0..n-1\<close>.
\<close>

definition getD_row :: "eig \<Rightarrow> int \<Rightarrow> mat \<Rightarrow> error + mat" where
  "getD_row st i D =
     (let n = dim_n st; d = vec_d st; e = vec_e st;
          D = D((i, i) := d i)
      in if e i > 0 then
           (if i + 1 < n then Inr (D((i, i + 1) := e i)) else Inl bad_index)
         else if e i < 0 then
           (if 0 \<le> i - 1 then Inr (D((i, i - 1) := e i)) else Inl bad_index)
         else Inr D)"

text \<open>\<open>D.resize(n,n,false); D.clear();\<close> gives the \<open>n\<close> by \<open>n\<close> zero matrix.\<close>

definition getD :: "eig \<Rightarrow> error + matrix" where
  "getD st =
     (let n = dim_n st;
          D = (\<lambda>_. 0)
      in case for_up 0 n (\<lambda>i r. case r of Inl err \<Rightarrow> Inl err | Inr D \<Rightarrow> getD_row st i D) (Inr D) of
           Inl err \<Rightarrow> Inl err
         | Inr D \<Rightarrow> Inr \<lparr>size1 = nat n, size2 = nat n, data = D\<rparr>)"

subsection \<open>Concrete inputs\<close>

text \<open>An object whose storage holds zeros before construction.\<close>

definition zero_mem :: eig where
  "zero_mem = \<lparr>dim_n = 0, issymmetric = False, vec_d = (\<lambda>_. 0), vec_e = (\<lambda>_. 0),
       mat_V = (\<lambda>_. 0), mat_H = (\<lambda>_. 0), vec_ort = (\<lambda>_. 0), div_ok = True\<rparr>"

text \<open>The quarter turn \<open>{{0,1},{-1,0}}\<close>, with the eigenvalues \<open>i\<close> and \<open>-i\<close>.\<close>

definition rot2 :: matrix where
  "rot2 = \<lparr>size1 = 2, size2 = 2,
           data = (\<lambda>(i, j). if i = 0 \<and> j = 1 then 1 else if i = 1 \<and> j = 0 then - 1 else 0)\<rparr>"

text \<open>The packed symmetric 1 by 1 matrix \<open>[[3]]\<close>.\<close>

definition three_sym :: symmetric_matrix where
  "three_sym = \<lparr>size_sym = 1, data_sym = (\<lambda>_. 3)\<rparr>"

text \<open>The symmetric matrix \<open>{{0,-12},{-12,7}}\<close>, with the eigenvalues \<open>-9\<close> and \<open>16\<close>.\<close>

definition sym2 :: matrix where
  "sym2 = \<lparr>size1 = 2, size2 = 2,
           data = (\<lambda>(i, j). if i = 1 \<and> j = 1 then 7 else if i = j then 0 else - 12)\<rparr>"

text \<open>A matrix with one row and two columns.\<close>

definition wide12 :: matrix where
  "wide12 = \<lparr>size1 = 1, size2 = 2, data = (\<lambda>_. 0)\<rparr>"

subsection \<open>Invariants and specifications used in the proofs\<close>

text \<open>
  The invariant of the outer loop of \<open>hqr2\<close>: the indices above \<open>n\<close> hold their final
  eigenvalues; a positive imaginary part is followed by its conjugate, the last
  imaginary part is not positive and the first is not negative.
\<close>

definition hqr2_inv :: "int \<Rightarrow> hqr2_vars \<Rightarrow> bool" where
  "hqr2_inv nn st \<longleftrightarrow>
     - 1 \<le> var_n st \<and> var_n st < nn \<and>
     (\<forall>i. var_n st < i \<and> i < nn \<and> 0 < var_e st i \<longrightarrow>
        i + 1 < nn \<and> var_d st i = var_d st (i + 1) \<and> var_e st (i + 1) = - var_e st i) \<and>
     (var_n st < nn - 1 \<longrightarrow> var_e st (nn - 1) \<le> 0) \<and>
     (var_n st < 0 \<and> 0 < nn \<longrightarrow> 0 \<le> var_e st 0)"

text \<open>The block diagonal matrix of \<open>d\<close> and \<open>e\<close>, filled in for the rows below \<open>k\<close>.\<close>

definition block_diag :: "int \<Rightarrow> vec \<Rightarrow> vec \<Rightarrow> mat" where
  "block_diag k d e = (\<lambda>(i, j).
     if 0 \<le> i \<and> i < k then
       (if j = i then d i
        else if j = i + 1 \<and> e i > 0 then e i
        else if j = i - 1 \<and> e i < 0 then e i
        else 0)
     else 0)"

section \<open>Loop rules\<close>

lemma for_up_skip: "hi \<le> lo \<Longrightarrow> for_up lo hi body s = s"
  by (simp add: for_up.simps)

lemma for_up_step: "lo < hi \<Longrightarrow> for_up lo hi body s = for_up (lo + 1) hi body (body lo s)"
  by (subst for_up.simps) simp

lemma for_up_rule:
  assumes "P lo s"
    and "\<And>k s. lo \<le> k \<Longrightarrow> k < hi \<Longrightarrow> P k s \<Longrightarrow> P (k + 1) (body k s)"
    and "lo \<le> hi"
  shows "P hi (for_up lo hi body s)"
  using assms
proof (induction lo hi body s rule: for_up.induct)
  case (1 k hi body s)
  show ?case
  proof (cases "k < hi")
    case True
    have "P hi (for_up (k + 1) hi body (body k s))"
      using True 1 by (intro "1.IH") auto
    then show ?thesis using True by (simp add: for_up_step)
  next
    case False
    then have "k = hi" using 1 by simp
    then show ?thesis using 1 by (simp add: for_up_skip)
  qed
qed

lemma for_up_pres:
  assumes "Q s"
    and "\<And>k s. lo \<le> k \<Longrightarrow> k < hi \<Longrightarrow> Q s \<Longrightarrow> Q (body k s)"
  shows "Q (for_up lo hi body s)"
proof (cases "lo \<le> hi")
  case True
  then show ?thesis using for_up_rule [where P = "\<lambda>k. Q" and body = body and lo = lo and hi = hi and s = s] assms
    by blast
next
  case False
  then show ?thesis using assms by (simp add: for_up_skip)
qed

lemma for_down_skip: "k < lo \<Longrightarrow> for_down k lo body s = s"
  by (simp add: for_down.simps)

lemma for_down_step: "lo \<le> k \<Longrightarrow> for_down k lo body s = for_down (k - 1) lo body (body k s)"
  by (subst for_down.simps) simp

lemma for_down_rule:
  assumes "P hi s"
    and "\<And>k s. lo \<le> k \<Longrightarrow> k \<le> hi \<Longrightarrow> P k s \<Longrightarrow> P (k - 1) (body k s)"
    and "lo \<le> hi + 1"
  shows "P (lo - 1) (for_down hi lo body s)"
  using assms
proof (induction hi lo body s rule: for_down.induct)
  case (1 k lo body s)
  show ?case
  proof (cases "lo \<le> k")
    case True
    have "P (lo - 1) (for_down (k - 1) lo body (body k s))"
      using True 1 by (intro "1.IH") auto
    then show ?thesis using True by (simp add: for_down_step)
  next
    case False
    then have "k = lo - 1" using 1 by simp
    then show ?thesis using 1 by (simp add: for_down_skip)
  qed
qed

lemma for_down_pres:
  assumes "Q s"
    and "\<And>k s. lo \<le> k \<Longrightarrow> k \<le> hi \<Longrightarrow> Q s \<Longrightarrow> Q (body k s)"
  shows "Q (for_down hi lo body s)"
proof (cases "lo \<le> hi + 1")
  case True
  then show ?thesis using for_down_rule [where P = "\<lambda>k. Q" and body = body and lo = lo and hi = hi and s = s] assms
    by blast
next
  case False
  then show ?thesis using assms by (simp add: for_down_skip)
qed

lemma tql2_issymmetric: "tql2 fuel st = Some st' \<Longrightarrow> issymmetric st' = issymmetric st \<and> dim_n st' = dim_n st"
  by (auto simp: tql2_def Let_def split: option.splits prod.splits)

lemma tred2_issymmetric: "issymmetric (tred2 st) = issymmetric st \<and> dim_n (tred2 st) = dim_n st"
  by (simp add: tred2_def Let_def split: prod.splits)

lemma orthes_issymmetric: "issymmetric (orthes st) = issymmetric st \<and> dim_n (orthes st) = dim_n st"
  by (simp add: orthes_def Let_def split: prod.splits)

lemma hqr2_issymmetric: "hqr2 fuel loc st = Some st' \<Longrightarrow> issymmetric st' = issymmetric st \<and> dim_n st' = dim_n st"
  by (auto simp: hqr2_def hqr2_vectors_def Let_def split: option.splits prod.splits if_splits)

lemma sym_loop:
  "for_up lo hi (\<lambda>i b. if b then P i else b) b0 = (b0 \<and> (\<forall>i. lo \<le> i \<and> i < hi \<longrightarrow> P i))"
proof (cases "lo \<le> hi")
  case True
  have "for_up lo hi (\<lambda>i b. if b then P i else b) b0 = (b0 \<and> (\<forall>i. lo \<le> i \<and> i < hi \<longrightarrow> P i))"
    by (rule for_up_rule [where P = "\<lambda>k b. b = (b0 \<and> (\<forall>i. lo \<le> i \<and> i < k \<longrightarrow> P i))"])
       (use True in \<open>auto simp: less_le dest: zless_imp_add1_zle\<close>)
  then show ?thesis .
next
  case False
  then show ?thesis by (auto simp: for_up_skip)
qed

lemma conj_loop:
  "for_up lo hi (\<lambda>i b. b \<and> P i) b0 = (b0 \<and> (\<forall>i. lo \<le> i \<and> i < hi \<longrightarrow> P i))"
proof -
  have "(\<lambda>i b. b \<and> P i) = (\<lambda>i b. if b then P i else b)"
    by auto
  then show ?thesis by (simp add: sym_loop)
qed

lemma is_symmetric_iff:
  "is_symmetric A \<longleftrightarrow>
     size1 A = size2 A \<and>
     (\<forall>i j. 0 \<le> i \<and> i < int (size2 A) \<and> 0 \<le> j \<and> j < int (size2 A)
        \<longrightarrow> data A (i, j) = data A (j, i))"
  unfolding is_symmetric_def Let_def sym_loop conj_loop by auto

section \<open>The imaginary parts after tql2\<close>

lemma tql2_rotate_loop_e:
  assumes "for_down hi l (tql2_rotate n) (c, c2, c3, s, s2, p, d, e, V, ok) =
             (c', c2', c3', s', s2', p', d', e', V', ok')"
    and "j \<le> l"
  shows "e' j = e j"
proof -
  have "(case for_down hi l (tql2_rotate n) (c, c2, c3, s, s2, p, d, e, V, ok) of
           (c', c2', c3', s', s2', p', d', e', V', ok') \<Rightarrow> e' j = e j)"
    by (rule for_down_pres) (use assms(2) in \<open>auto simp: tql2_rotate_def Let_def\<close>)
  then show ?thesis using assms(1) by simp
qed

lemma tql2_step_e:
  assumes "tql2_step n l m (f, d, e, V, ok) = (f', d', e', V', ok')" and "j < l"
  shows "e' j = e j"
  using assms
  by (auto simp: tql2_step_def Let_def split: prod.splits dest!: tql2_rotate_loop_e [where j = j])

lemma tql2_iterate_e:
  "tql2_iterate fuel n l m tst1 (f, d, e, V, ok) = Some (f', d', e', V', ok') \<Longrightarrow> j < l \<Longrightarrow>
   e' j = e j"
proof (induction fuel arbitrary: f d e V ok)
  case 0
  then show ?case by simp
next
  case (Suc fuel)
  obtain f1 d1 e1 V1 ok1 where st: "tql2_step n l m (f, d, e, V, ok) = (f1, d1, e1, V1, ok1)"
    by (cases "tql2_step n l m (f, d, e, V, ok)") auto
  have e1: "e1 j = e j"
    using tql2_step_e [OF st Suc.prems(2)] .
  show ?case
  proof (cases "\<bar>e1 l\<bar> > eps * tst1")
    case True
    then have "tql2_iterate fuel n l m tst1 (f1, d1, e1, V1, ok1) = Some (f', d', e', V', ok')"
      using Suc.prems(1) st by simp
    then show ?thesis using Suc.IH Suc.prems(2) e1 by simp
  next
    case False
    then show ?thesis using Suc.prems(1) st e1 by simp
  qed
qed

lemma tql2_l_e:
  assumes "tql2_l fuel n l (f, tst1, d, e, V, ok) = Some (f', tst1', d', e', V', ok')"
  shows "e' l = 0 \<and> (\<forall>j. j < l \<longrightarrow> e' j = e j)"
  using assms
  by (auto simp: tql2_l_def Let_def split: option.splits if_splits dest: tql2_iterate_e)

lemma tql2_loop_e:
  assumes "for_up 0 n (\<lambda>l r. Option.bind r (tql2_l fuel n l)) (Some (f, tst1, d, e, V, ok)) =
             Some (f', tst1', d', e', V', ok')"
    and "0 \<le> j" "j < n"
  shows "e' j = 0"
proof -
  define P :: "int \<Rightarrow> (real \<times> real \<times> vec \<times> vec \<times> mat \<times> bool) option \<Rightarrow> bool"
    where "P = (\<lambda>k r. case r of None \<Rightarrow> True
        | Some (f', tst1', d', e', V', ok') \<Rightarrow> \<forall>j. 0 \<le> j \<and> j < k \<longrightarrow> e' j = 0)"
  have "P n (for_up 0 n (\<lambda>l r. Option.bind r (tql2_l fuel n l)) (Some (f, tst1, d, e, V, ok)))"
  proof (rule for_up_rule [where P = P])
    show "0 \<le> n" using assms by simp
  next
    show "P 0 (Some (f, tst1, d, e, V, ok))"
      by (simp add: P_def)
  next
    fix k r
    assume k: "0 \<le> k" "k < n" and r: "P k r"
    show "P (k + 1) (Option.bind r (tql2_l fuel n k))"
    proof (cases r)
      case None
      then show ?thesis by (simp add: P_def)
    next
      case (Some a)
      obtain f1 t1 d1 e1 V1 ok1 where a: "a = (f1, t1, d1, e1, V1, ok1)"
        by (cases a) auto
      have old: "\<forall>j. 0 \<le> j \<and> j < k \<longrightarrow> e1 j = 0"
        using r Some a by (simp add: P_def)
      show ?thesis
      proof (cases "tql2_l fuel n k a")
        case None
        then show ?thesis using Some by (simp add: P_def)
      next
        case new: (Some b)
        obtain f2 t2 d2 e2 V2 ok2 where b: "b = (f2, t2, d2, e2, V2, ok2)"
          by (cases b) auto
        have step: "e2 k = 0" "\<And>j. j < k \<Longrightarrow> e2 j = e1 j"
          using tql2_l_e new a b by blast+
        have "e2 j = 0" if "0 \<le> j" "j < k + 1" for j
          using that step old by (cases "j = k") auto
        then have "\<forall>j. 0 \<le> j \<and> j < k + 1 \<longrightarrow> e2 j = 0"
          by blast
        then show ?thesis using new Some b by (simp add: P_def)
      qed
    qed
  qed
  then show ?thesis using assms by (simp add: P_def)
qed

lemma tql2_imag_zero:
  assumes "tql2 fuel st = Some st'" and "0 \<le> j" "j < dim_n st"
  shows "vec_e st' j = 0"
  using assms
  by (auto simp: tql2_def Let_def split: option.splits prod.splits dest: tql2_loop_e)

section \<open>The eigenvalue pairs of hqr2\<close>

lemma let_distrib: "f (Let a g) = (let x = a in f (g x))"
  by simp

lemmas var_frame_simps =
  let_distrib [of var_n] let_distrib [of var_d] let_distrib [of var_e] let_distrib [of var_ok]
  prod.case_distrib [of var_n] prod.case_distrib [of var_d] prod.case_distrib [of var_e]
  prod.case_distrib [of var_ok]
  if_distrib [of var_n] if_distrib [of var_d] if_distrib [of var_e] if_distrib [of var_ok]
  hqr2_vars.simps

lemma hqr2_two_roots_real_frame:
  "var_n (hqr2_two_roots_real nn x z st) = var_n st \<and>
   var_ok (hqr2_two_roots_real nn x z st) = var_ok st \<and>
   (\<forall>i. i \<noteq> var_n st \<and> i \<noteq> var_n st - 1 \<longrightarrow>
      var_d (hqr2_two_roots_real nn x z st) i = var_d st i) \<and>
   (\<forall>i. var_e (hqr2_two_roots_real nn x z st) i =
      (if i = var_n st \<or> i = var_n st - 1 then 0 else var_e st i))"
  apply (simp only: hqr2_two_roots_real_def var_frame_simps)
  apply (simp add: Let_def case_prod_beta)
  done

lemma hqr2_find_l_range:
  "hqr2_find_l H anorm low l s = (l', s') \<Longrightarrow> low \<le> l \<Longrightarrow> low \<le> l' \<and> l' \<le> l"
proof (induction H anorm low l s rule: hqr2_find_l.induct)
  case (1 H anorm low l s)
  show ?case
  proof (cases "l > low")
    case True
    let ?s = "\<bar>H (l - 1, l - 1)\<bar> + \<bar>H (l, l)\<bar>"
    let ?s' = "if ?s = 0 then anorm else ?s"
    show ?thesis
    proof (cases "\<bar>H (l, l - 1)\<bar> < eps * ?s'")
      case small: True
      then have "hqr2_find_l H anorm low l s = (l, ?s')"
        using True by (subst hqr2_find_l.simps) (simp add: Let_def)
      then show ?thesis using "1.prems" by simp
    next
      case False
      then have "hqr2_find_l H anorm low l s = hqr2_find_l H anorm low (l - 1) ?s'"
        using True by (subst hqr2_find_l.simps) (simp add: Let_def)
      then have "low \<le> l' \<and> l' \<le> l - 1"
        using "1.IH" [OF True refl refl False] "1.prems" True by simp
      then show ?thesis by simp
    qed
  next
    case False
    then show ?thesis
      using "1.prems" by (subst (asm) hqr2_find_l.simps) auto
  qed
qed

lemma hqr2_one_root_inv:
  "hqr2_inv nn st \<Longrightarrow> 0 \<le> var_n st \<Longrightarrow> hqr2_inv nn (hqr2_one_root st)"
  by (auto simp: hqr2_inv_def hqr2_one_root_def Let_def)

lemma hqr2_form_shift_frame:
  "var_n (hqr2_form_shift l st) = var_n st \<and> var_d (hqr2_form_shift l st) = var_d st \<and>
   var_e (hqr2_form_shift l st) = var_e st \<and> var_ok (hqr2_form_shift l st) = var_ok st"
  by (simp add: hqr2_form_shift_def Let_def case_prod_beta)

lemma hqr2_qr_sweep_frame:
  "var_n (hqr2_qr_sweep nn l st) = var_n st \<and> var_d (hqr2_qr_sweep nn l st) = var_d st \<and>
   var_e (hqr2_qr_sweep nn l st) = var_e st \<and> var_ok (hqr2_qr_sweep nn l st) = var_ok st"
  by (simp add: hqr2_qr_sweep_def Let_def case_prod_beta hqr2_form_shift_frame)

lemma hqr2_two_roots_props:
  "var_n (hqr2_two_roots nn st) = var_n st - 2 \<and>
   var_ok (hqr2_two_roots nn st) = var_ok st \<and>
   (\<forall>i. i \<noteq> var_n st \<and> i \<noteq> var_n st - 1 \<longrightarrow>
      var_d (hqr2_two_roots nn st) i = var_d st i \<and> var_e (hqr2_two_roots nn st) i = var_e st i) \<and>
   ((var_e (hqr2_two_roots nn st) (var_n st - 1) = 0 \<and> var_e (hqr2_two_roots nn st) (var_n st) = 0) \<or>
    (0 < var_e (hqr2_two_roots nn st) (var_n st - 1) \<and>
     var_e (hqr2_two_roots nn st) (var_n st) = - var_e (hqr2_two_roots nn st) (var_n st - 1) \<and>
     var_d (hqr2_two_roots nn st) (var_n st - 1) = var_d (hqr2_two_roots nn st) (var_n st)))"
proof -
  let ?H = "var_H st" and ?n = "var_n st"
  let ?p = "(?H (?n - 1, ?n - 1) - ?H (?n, ?n)) / 2"
  let ?q = "?p * ?p + ?H (?n, ?n - 1) * ?H (?n - 1, ?n)"
  show ?thesis
  proof (cases "?q \<ge> 0")
    case True
    then show ?thesis
      by (simp add: hqr2_two_roots_def Let_def hqr2_two_roots_real_frame)
  next
    case False
    then have "sqrt \<bar>?q\<bar> > 0" by simp
    then show ?thesis
      using False by (simp add: hqr2_two_roots_def Let_def)
  qed
qed

lemma hqr2_two_roots_inv:
  assumes inv: "hqr2_inv nn st" and n1: "1 \<le> var_n st"
  shows "hqr2_inv nn (hqr2_two_roots nn st)"
proof -
  let ?st' = "hqr2_two_roots nn st" and ?n = "var_n st"
  have n': "var_n ?st' = ?n - 2"
    and fr: "\<And>i. i \<noteq> ?n \<Longrightarrow> i \<noteq> ?n - 1 \<Longrightarrow> var_d ?st' i = var_d st i \<and> var_e ?st' i = var_e st i"
    and pr: "(var_e ?st' (?n - 1) = 0 \<and> var_e ?st' ?n = 0) \<or>
             (0 < var_e ?st' (?n - 1) \<and> var_e ?st' ?n = - var_e ?st' (?n - 1) \<and>
              var_d ?st' (?n - 1) = var_d ?st' ?n)"
    using hqr2_two_roots_props [of nn st] by auto
  have nlt: "?n < nn"
    and old: "\<And>i. ?n < i \<Longrightarrow> i < nn \<Longrightarrow> 0 < var_e st i \<Longrightarrow>
               i + 1 < nn \<and> var_d st i = var_d st (i + 1) \<and> var_e st (i + 1) = - var_e st i"
    and last: "?n < nn - 1 \<Longrightarrow> var_e st (nn - 1) \<le> 0"
    using inv unfolding hqr2_inv_def by auto
  have A: "i + 1 < nn \<and> var_d ?st' i = var_d ?st' (i + 1) \<and> var_e ?st' (i + 1) = - var_e ?st' i"
    if a: "var_n ?st' < i" "i < nn" "0 < var_e ?st' i" for i
  proof -
    consider (first) "i = ?n - 1" | (second) "i = ?n" | (above) "?n < i"
      using a n' by linarith
    then show ?thesis
    proof cases
      case first
      then show ?thesis using pr a nlt by auto
    next
      case second
      then show ?thesis using pr a by auto
    next
      case above
      then have "var_e ?st' i = var_e st i" "var_d ?st' i = var_d st i"
        "var_e ?st' (i + 1) = var_e st (i + 1)" "var_d ?st' (i + 1) = var_d st (i + 1)"
        using fr [of i] fr [of "i + 1"] by auto
      then show ?thesis using old [of i] above a by simp
    qed
  qed
  have B: "var_e ?st' (nn - 1) \<le> 0" if "var_n ?st' < nn - 1"
  proof (cases "nn - 1 = ?n")
    case True
    then show ?thesis using pr by auto
  next
    case False
    then show ?thesis using fr [of "nn - 1"] last nlt by auto
  qed
  have C: "0 \<le> var_e ?st' 0" if "var_n ?st' < 0"
  proof -
    have "?n = 1" using that n' n1 by simp
    then show ?thesis using pr by auto
  qed
  show ?thesis
    unfolding hqr2_inv_def using A B C n' n1 nlt by auto
qed

lemma hqr2_inv_cong:
  "var_n a = var_n b \<Longrightarrow> var_d a = var_d b \<Longrightarrow> var_e a = var_e b \<Longrightarrow>
   hqr2_inv nn a = hqr2_inv nn b"
  by (simp add: hqr2_inv_def)

lemma hqr2_one_root_ok: "var_ok (hqr2_one_root st) = var_ok st \<and> var_n (hqr2_one_root st) = var_n st - 1"
  by (simp add: hqr2_one_root_def Let_def)

lemma hqr2_iteration_inv:
  assumes inv: "hqr2_inv nn st" and n0: "0 \<le> var_n st"
  shows "hqr2_inv nn (hqr2_iteration nn anorm st) \<and>
         var_ok (hqr2_iteration nn anorm st) = var_ok st"
proof -
  obtain l s where ls: "hqr2_find_l (var_H st) anorm 0 (var_n st) (var_s st) = (l, s)"
    by (cases "hqr2_find_l (var_H st) anorm 0 (var_n st) (var_s st)") auto
  then have rng: "0 \<le> l \<and> l \<le> var_n st"
    using hqr2_find_l_range n0 by blast
  let ?st = "st\<lparr>var_s := s\<rparr>"
  have inv': "hqr2_inv nn ?st"
    using inv by (simp add: hqr2_inv_def)
  have it: "hqr2_iteration nn anorm st =
      (if l = var_n st then hqr2_one_root ?st
       else if l = var_n st - 1 then hqr2_two_roots nn ?st
       else hqr2_qr_sweep nn l ?st)"
    by (simp add: hqr2_iteration_def Let_def ls)
  show ?thesis
  proof (cases "l = var_n st")
    case True
    then show ?thesis
      using it hqr2_one_root_inv [OF inv'] n0 hqr2_one_root_ok [of ?st] by simp
  next
    case False
    show ?thesis
    proof (cases "l = var_n st - 1")
      case True
      then have "1 \<le> var_n ?st" using rng by simp
      then show ?thesis
        using it True False hqr2_two_roots_inv [OF inv'] hqr2_two_roots_props [of nn ?st]
        by simp
    next
      case nt: False
      have "hqr2_inv nn (hqr2_qr_sweep nn l ?st) = hqr2_inv nn ?st"
        by (rule hqr2_inv_cong) (simp_all add: hqr2_qr_sweep_frame)
      then show ?thesis
        using it False nt inv' hqr2_qr_sweep_frame [of nn l ?st] by simp
    qed
  qed
qed

lemma hqr2_main_inv:
  "hqr2_main fuel nn anorm st = Some st' \<Longrightarrow> hqr2_inv nn st \<Longrightarrow>
   hqr2_inv nn st' \<and> var_n st' < 0 \<and> var_ok st' = var_ok st"
proof (induction fuel arbitrary: st)
  case 0
  then show ?case by (auto split: if_splits)
next
  case (Suc fuel)
  show ?case
  proof (cases "var_n st \<ge> 0")
    case True
    then have "hqr2_main fuel nn anorm (hqr2_iteration nn anorm st) = Some st'"
      using Suc.prems by simp
    then show ?thesis
      using Suc.IH [of "hqr2_iteration nn anorm st"] hqr2_iteration_inv [OF Suc.prems(2) True]
      by simp
  next
    case False
    then show ?thesis using Suc.prems by simp
  qed
qed

lemma hqr2_back_frame:
  "var_d (hqr2_back anorm n st) = var_d st \<and> var_e (hqr2_back anorm n st) = var_e st"
  apply (simp only: hqr2_back_def var_frame_simps)
  apply (simp add: Let_def case_prod_beta)
  done

lemma hqr2_back_loop_frame:
  "var_d (for_down hi lo (hqr2_back anorm) st) = var_d st \<and>
   var_e (for_down hi lo (hqr2_back anorm) st) = var_e st"
  by (rule for_down_pres [where Q = "\<lambda>s. var_d s = var_d st \<and> var_e s = var_e st"])
     (simp_all add: hqr2_back_frame)

lemma hqr2_vectors_frame:
  "vec_d (hqr2_vectors anorm st vars) = var_d vars \<and>
   vec_e (hqr2_vectors anorm st vars) = var_e vars \<and>
   dim_n (hqr2_vectors anorm st vars) = dim_n st \<and>
   div_ok (hqr2_vectors anorm st vars) =
     var_ok (if anorm = 0 then vars else for_down (dim_n st - 1) 0 (hqr2_back anorm) vars)"
  by (simp add: hqr2_vectors_def Let_def case_prod_beta hqr2_back_loop_frame)

lemma hqr2_result:
  assumes "hqr2 fuel loc st = Some st'"
  shows "\<exists>d e vars1 anorm.
           anorm = snd (snd (hqr2_norm (dim_n st) (mat_H st) (vec_d st, vec_e st))) \<and>
           hqr2_main fuel (dim_n st) anorm (hqr2_init loc st d e) = Some vars1 \<and>
           st' = hqr2_vectors anorm st vars1"
  using assms
  by (auto simp: hqr2_def Let_def case_prod_beta split: option.splits)

lemma hqr2_init_frame:
  "var_n (hqr2_init loc st d e) = dim_n st - 1 \<and> var_ok (hqr2_init loc st d e) = div_ok st"
  by (simp add: hqr2_init_def Let_def case_prod_beta)

lemma hqr2_pairs:
  assumes run: "hqr2 fuel loc st = Some st'" and nn: "0 \<le> dim_n st"
  shows "(\<forall>i. 0 \<le> i \<and> i < dim_n st \<and> 0 < vec_e st' i \<longrightarrow>
             i + 1 < dim_n st \<and> vec_d st' i = vec_d st' (i + 1) \<and>
             vec_e st' (i + 1) = - vec_e st' i) \<and>
         (0 < dim_n st \<longrightarrow> vec_e st' (dim_n st - 1) \<le> 0 \<and> 0 \<le> vec_e st' 0)"
proof -
  obtain d e vars1 anorm
    where main: "hqr2_main fuel (dim_n st) anorm (hqr2_init loc st d e) = Some vars1"
    and st': "st' = hqr2_vectors anorm st vars1"
    using hqr2_result [OF run] by blast
  define vars0 where "vars0 = hqr2_init loc st d e"
  have v0: "var_n vars0 = dim_n st - 1"
    by (simp add: vars0_def hqr2_init_frame)
  note main = main [folded vars0_def]
  have "hqr2_inv (dim_n st) vars0"
    using v0 nn by (simp add: hqr2_inv_def)
  then have inv: "hqr2_inv (dim_n st) vars1" and neg: "var_n vars1 < 0"
    using hqr2_main_inv [OF main] by auto
  have de: "vec_d st' = var_d vars1" "vec_e st' = var_e vars1"
    using st' hqr2_vectors_frame by auto
  show ?thesis
    using inv neg unfolding de hqr2_inv_def by auto
qed

section \<open>The matrix built by getD\<close>

lemma getD_row_ok:
  assumes "0 \<le> k" "k < dim_n st"
    and "0 < vec_e st k \<Longrightarrow> k + 1 < dim_n st" and "vec_e st k < 0 \<Longrightarrow> 0 < k"
  shows "getD_row st k (block_diag k (vec_d st) (vec_e st)) =
           Inr (block_diag (k + 1) (vec_d st) (vec_e st))"
  using assms
  by (auto simp: getD_row_def Let_def block_diag_def fun_eq_iff)

lemma getD_block_diag:
  assumes first: "0 < dim_n st \<Longrightarrow> 0 \<le> vec_e st 0"
    and last: "0 < dim_n st \<Longrightarrow> vec_e st (dim_n st - 1) \<le> 0"
  shows "getD st = Inr \<lparr>size1 = nat (dim_n st), size2 = nat (dim_n st),
                        data = block_diag (dim_n st) (vec_d st) (vec_e st)\<rparr>"
proof -
  let ?n = "dim_n st"
  let ?loop = "for_up 0 ?n (\<lambda>i r. case r of Inl err \<Rightarrow> Inl err | Inr D \<Rightarrow> getD_row st i D)
                 (Inr (\<lambda>_. 0))"
  have "?loop = Inr (block_diag ?n (vec_d st) (vec_e st))"
  proof (cases "0 \<le> ?n")
    case True
    show ?thesis
    proof (rule for_up_rule [where P = "\<lambda>k r. r = Inr (block_diag k (vec_d st) (vec_e st))"])
      show "Inr (\<lambda>_. 0) = Inr (block_diag 0 (vec_d st) (vec_e st))"
        by (auto simp: block_diag_def fun_eq_iff)
    next
      fix k and r :: "error + mat"
      assume k: "0 \<le> k" "k < ?n" and r: "r = Inr (block_diag k (vec_d st) (vec_e st))"
      have "0 < vec_e st k \<Longrightarrow> k + 1 < ?n"
        using last k by (cases "k = ?n - 1") auto
      moreover have "vec_e st k < 0 \<Longrightarrow> 0 < k"
        using first k by (cases "k = 0") auto
      ultimately show "(case r of Inl err \<Rightarrow> Inl err | Inr D \<Rightarrow> getD_row st k D) =
                 Inr (block_diag (k + 1) (vec_d st) (vec_e st))"
        using getD_row_ok [OF k] r by simp
    qed (rule True)
  next
    case False
    then show ?thesis
      by (auto simp: for_up_skip block_diag_def fun_eq_iff)
  qed
  then show ?thesis
    by (simp add: getD_def Let_def)
qed

section \<open>Evaluation on small inputs\<close>

lemma tred2_one:
  "dim_n st = 1 \<Longrightarrow>
   tred2 st = st\<lparr>vec_d := (vec_d st)(0 := mat_V st (0, 0)), vec_e := (vec_e st)(0 := 0),
                 mat_V := (mat_V st)((0, 0) := 1)\<rparr>"
  by (simp add: tred2_def Let_def for_up.simps for_down.simps)

lemma tql2_one:
  "dim_n st = 1 \<Longrightarrow> tql2 fuel st = Some (st\<lparr>vec_e := (vec_e st)(0 := 0)\<rparr>)"
  by (simp add: tql2_def Let_def for_up.simps tql2_l_def tql2_find_m.simps eps_def)

lemma is_symmetric_one: "size1 A = Suc 0 \<Longrightarrow> size2 A = Suc 0 \<Longrightarrow> is_symmetric A"
  by (simp add: is_symmetric_def for_up.simps)

lemma not_sym_rot2: "\<not> is_symmetric rot2"
  by (simp add: is_symmetric_def rot2_def for_up.simps)

lemma orthes_two: "dim_n st = 2 \<Longrightarrow> orthes st = st\<lparr>mat_V := identity_matrix\<rparr>"
  by (simp add: orthes_def Let_def for_up.simps for_down.simps)

lemma hqr2_rot2:
  "\<exists>st. hqr2 1 (0, 0, 0, 0) (zero_mem\<lparr>dim_n := 2, mat_H := data rot2, mat_V := identity_matrix\<rparr>) = Some st
     \<and> vec_e st 0 = 1 \<and> vec_e st 1 = - 1 \<and> vec_d st 0 = 0 \<and> vec_d st 1 = 0 \<and> div_ok st"
  by (simp add: hqr2_def Let_def for_up.simps for_down.simps zero_mem_def rot2_def
      identity_matrix_def hqr2_iteration_def hqr2_find_l.simps eps_def hqr2_two_roots_def
      hqr2_back_def hqr2_complex_last_def hqr2_norm_def hqr2_vectors_def hqr2_init_def
      complex_eq_iff)

lemma construct_rot2:
  "\<exists>st. EigenvalueDecomposition 1 (0, 0, 0, 0) zero_mem rot2 = Some (Inr st)
     \<and> vec_e st 0 = 1 \<and> vec_e st 1 = - 1 \<and> vec_d st 0 = 0 \<and> vec_d st 1 = 0 \<and> div_ok st \<and> dim_n st = 2 \<and> \<not> issymmetric st"
proof -
  have H: "for_up 0 2 (\<lambda>j H. for_up 0 2 (\<lambda>i H. H((i, j) := data rot2 (i, j))) H) (\<lambda>_. 0) = data rot2"
    by (auto simp: for_up.simps rot2_def fun_eq_iff)
  obtain st where "hqr2 1 (0, 0, 0, 0) (zero_mem\<lparr>dim_n := 2, mat_H := data rot2, mat_V := identity_matrix\<rparr>) = Some st"
     "vec_e st 0 = 1" "vec_e st 1 = - 1" "vec_d st 0 = 0"  "vec_d st 1 = 0" "div_ok st"
    using hqr2_rot2 by blast
  moreover have "zero_mem\<lparr>dim_n := 2, div_ok := True, issymmetric := False, mat_H := data rot2, mat_V := identity_matrix\<rparr>
     = zero_mem\<lparr>dim_n := 2, mat_H := data rot2, mat_V := identity_matrix\<rparr>"
    by (simp add: zero_mem_def)
  moreover have "size1 rot2 = size2 rot2" "int (size2 rot2) = 2" by (simp_all add: rot2_def)
  ultimately show ?thesis
    using not_sym_rot2 H [unfolded rot2_def]
    apply (simp add: EigenvalueDecomposition_def Let_def orthes_two )
    apply (simp add: zero_mem_def rot2_def)
    apply (auto dest: hqr2_issymmetric)
    done
qed

lemma sqrt_625_576: "sqrt (625 / 576) = 25 / 24"
  by (rule real_sqrt_unique) (simp_all add: power2_eq_square)

lemma sqrt_25_16: "sqrt (25 / 16) = 5 / 4"
  by (rule real_sqrt_unique) (simp_all add: power2_eq_square)

lemma hypot_7_24: "hypot (7 / 24) 1 = 25 / 24"
  using sqrt_625_576 by (simp add: hypot_def Let_def)

lemma hypot_16_12: "hypot 16 12 = 20"
  using sqrt_25_16 by (simp add: hypot_def Let_def)

lemma sym_sym2: "is_symmetric sym2"
  by (simp add: is_symmetric_def sym2_def for_up.simps)

lemma tred2_sym2:
  "\<exists>st. tred2 (zero_mem\<lparr>dim_n := 2, div_ok := True, issymmetric := True, mat_V := data sym2\<rparr>) = st \<and>
     dim_n st = 2 \<and> div_ok st \<and> vec_d st 0 = 0 \<and> vec_d st 1 = 7 \<and> vec_e st 0 = 0 \<and> vec_e st 1 = 12 \<and> issymmetric st"
  by (simp add: sym2_def zero_mem_def tred2_def tred2_row_def tred2_generate_def tred2_apply_def
      tred2_accumulate_def Let_def for_up.simps for_down.simps)

lemma construct_sym2:
  "\<exists>st. EigenvalueDecomposition 1 (0, 0, 0, 0) zero_mem sym2 = Some (Inr st)
     \<and> vec_e st 0 = 0 \<and> vec_e st 1 = 0 \<and> vec_d st 0 = - 9 \<and> vec_d st 1 = 16 \<and> div_ok st
     \<and> dim_n st = 2 \<and> issymmetric st"
  apply (simp add: EigenvalueDecomposition_def sym_sym2 Let_def)
  apply (simp add: sym2_def zero_mem_def tred2_def tred2_row_def tred2_generate_def tred2_apply_def
      tred2_accumulate_def tql2_def tql2_l_def tql2_find_m.simps tql2_step_def tql2_rotate_def
      tql2_sort_step_def eps_def Let_def for_up.simps for_down.simps hypot_7_24 hypot_16_12)
  done

section \<open>Shape check and symmetry flag\<close>

text \<open>
  C6: for every input matrix that is not square, the constructor from a general matrix
  throws \<open>bad_size\<close>, whatever the fuel and the storage: nothing of \<open>tred2\<close>, \<open>tql2\<close>,
  \<open>orthes\<close>, \<open>hqr2\<close> has run, and the result carries no object. (A \<open>symmetric_matrix\<close>
  has one size only, so the other constructor has no such input.)
\<close>

theorem C6_not_square:
  "size1 A \<noteq> size2 A \<Longrightarrow> EigenvalueDecomposition fuel loc mem A = Some (Inl bad_size)"
  by (simp add: EigenvalueDecomposition_def)

theorem C6_not_square_witness:
  "size1 wide12 \<noteq> size2 wide12 \<and>
   EigenvalueDecomposition 0 (0, 0, 0, 0) zero_mem wide12 = Some (Inl bad_size)"
proof -
  have ns: "size1 wide12 \<noteq> size2 wide12"
    by (simp add: wide12_def)
  show ?thesis
    using ns C6_not_square [OF ns, of 0 "(0, 0, 0, 0)" zero_mem] by simp
qed

text \<open>
  C5: when the constructor from a general matrix returns, the input was square and the
  flag \<open>isSymmetric()\<close> is true exactly if \<open>A(i,j) = A(j,i)\<close> for all indices of the
  matrix (equality of entries, no tolerance); when the constructor from a
  \<open>symmetric_matrix\<close> returns, the flag is true.
\<close>

theorem C5_symmetry_flag:
  "(EigenvalueDecomposition fuel loc mem A = Some (Inr st) \<longrightarrow>
      size1 A = size2 A \<and>
      (isSymmetric st \<longleftrightarrow>
         (\<forall>i j. 0 \<le> i \<and> i < int (size2 A) \<and> 0 \<le> j \<and> j < int (size2 A)
            \<longrightarrow> data A (i, j) = data A (j, i)))) \<and>
   (EigenvalueDecomposition_sym fuel' mem' S = Some (Inr st') \<longrightarrow> isSymmetric st')"
proof (intro conjI impI)
  assume a: "EigenvalueDecomposition fuel loc mem A = Some (Inr st)"
  then show sq: "size1 A = size2 A"
    by (auto simp: EigenvalueDecomposition_def split: if_splits)
  have "issymmetric st = is_symmetric A"
    using a sq
    by (auto simp: EigenvalueDecomposition_def Let_def tred2_issymmetric orthes_issymmetric
        split: if_splits dest!: tql2_issymmetric hqr2_issymmetric)
  then show "isSymmetric st \<longleftrightarrow>
         (\<forall>i j. 0 \<le> i \<and> i < int (size2 A) \<and> 0 \<le> j \<and> j < int (size2 A)
            \<longrightarrow> data A (i, j) = data A (j, i))"
    using sq by (simp add: isSymmetric_def is_symmetric_iff)
next
  assume "EigenvalueDecomposition_sym fuel' mem' S = Some (Inr st')"
  then show "isSymmetric st'"
    by (auto simp: EigenvalueDecomposition_sym_def Let_def isSymmetric_def tred2_issymmetric
        dest!: tql2_issymmetric)
qed

theorem C5_symmetry_flag_witness:
  "(\<exists>st. EigenvalueDecomposition 1 (0, 0, 0, 0) zero_mem rot2 = Some (Inr st) \<and>
         size1 rot2 = size2 rot2 \<and> \<not> isSymmetric st \<and>
         \<not> (\<forall>i j. 0 \<le> i \<and> i < int (size2 rot2) \<and> 0 \<le> j \<and> j < int (size2 rot2)
                \<longrightarrow> data rot2 (i, j) = data rot2 (j, i))) \<and>
   (\<exists>st'. EigenvalueDecomposition_sym 0 zero_mem three_sym = Some (Inr st') \<and> isSymmetric st')"
proof -
  obtain st where st: "EigenvalueDecomposition 1 (0, 0, 0, 0) zero_mem rot2 = Some (Inr st)"
    and ns: "\<not> issymmetric st"
    using construct_rot2 by blast
  obtain st' where st': "EigenvalueDecomposition_sym 0 zero_mem three_sym = Some (Inr st')"
    by (simp add: EigenvalueDecomposition_sym_def Let_def three_sym_def tred2_one tql2_one)
  show ?thesis
    using C5_symmetry_flag [where fuel = 1 and loc = "(0, 0, 0, 0)" and mem = zero_mem
        and A = rot2 and st = st and fuel' = 0 and mem' = zero_mem and S = three_sym and st' = st']
      st st' ns
    by (auto simp: isSymmetric_def)
qed

section \<open>The 1 by 1 case\<close>

text \<open>
  C10: for a 1 by 1 input \<open>[[a]]\<close>, either constructor returns (with any fuel, from any
  storage) an object with \<open>isSymmetric() = true\<close>, real eigenvalue \<open>a\<close>, imaginary
  eigenvalue \<open>0\<close> and eigenvector matrix \<open>[[1]]\<close>.
\<close>

theorem C10_one_by_one:
  "(\<exists>st. EigenvalueDecomposition fuel loc mem \<lparr>size1 = 1, size2 = 1, data = M\<rparr> = Some (Inr st) \<and>
         isSymmetric st \<and> dim_n st = 1 \<and> getRealEigenvalues st 0 = M (0, 0) \<and>
         getImagEigenvalues st 0 = 0 \<and> getV st (0, 0) = 1) \<and>
   (\<exists>st. EigenvalueDecomposition_sym fuel mem \<lparr>size_sym = 1, data_sym = M\<rparr> = Some (Inr st) \<and>
         isSymmetric st \<and> dim_n st = 1 \<and> getRealEigenvalues st 0 = M (0, 0) \<and>
         getImagEigenvalues st 0 = 0 \<and> getV st (0, 0) = 1)"
  by (simp add: EigenvalueDecomposition_def EigenvalueDecomposition_sym_def Let_def
      is_symmetric_one tred2_one tql2_one isSymmetric_def getRealEigenvalues_def
      getImagEigenvalues_def getV_def sym_at_def)

section \<open>Eigenvalue sequences and the block diagonal matrix\<close>

subsection \<open>What a constructor that returns has run\<close>

lemma construct_cases:
  assumes "EigenvalueDecomposition fuel loc mem A = Some (Inr st)"
  shows "size1 A = size2 A \<and> dim_n st = int (size2 A) \<and>
     ((is_symmetric A \<and> (\<exists>st0. dim_n st0 = int (size2 A) \<and> tql2 fuel st0 = Some st)) \<or>
      (\<not> is_symmetric A \<and> (\<exists>st0. dim_n st0 = int (size2 A) \<and> hqr2 fuel loc st0 = Some st)))"
proof (cases "is_symmetric A")
  case True
  let ?st0 = "tred2 (mem\<lparr>dim_n := int (size2 A), div_ok := True, issymmetric := True, mat_V := data A\<rparr>)"
  have "size1 A = size2 A" "tql2 fuel ?st0 = Some st"
    using assms True by (auto simp: EigenvalueDecomposition_def Let_def split: if_splits)
  moreover have "dim_n ?st0 = int (size2 A)"
    by (simp add: tred2_issymmetric)
  ultimately show ?thesis
    using True tql2_issymmetric [of fuel ?st0 st] by auto
next
  case False
  define H where "H = for_up 0 (int (size2 A))
     (\<lambda>j H. for_up 0 (int (size2 A)) (\<lambda>i H. H((i, j) := data A (i, j))) H) (mat_H mem)"
  let ?st0 = "orthes (mem\<lparr>dim_n := int (size2 A), div_ok := True, issymmetric := False, mat_H := H\<rparr>)"
  have "size1 A = size2 A" "hqr2 fuel loc ?st0 = Some st"
    using assms False by (auto simp: EigenvalueDecomposition_def Let_def H_def split: if_splits)
  moreover have "dim_n ?st0 = int (size2 A)"
    by (simp add: orthes_issymmetric)
  ultimately show ?thesis
    using False hqr2_issymmetric [of fuel loc ?st0 st] by auto
qed

lemma construct_sym_cases:
  assumes "EigenvalueDecomposition_sym fuel mem S = Some (Inr st)"
  shows "dim_n st = int (size_sym S) \<and>
         (\<exists>st0. dim_n st0 = int (size_sym S) \<and> tql2 fuel st0 = Some st)"
proof -
  let ?st0 = "tred2 (mem\<lparr>dim_n := int (size_sym S), div_ok := True, issymmetric := True, mat_V := sym_at S\<rparr>)"
  have "tql2 fuel ?st0 = Some st"
    using assms by (auto simp: EigenvalueDecomposition_sym_def Let_def)
  moreover have "dim_n ?st0 = int (size_sym S)"
    by (simp add: tred2_issymmetric)
  ultimately show ?thesis
    using tql2_issymmetric [of fuel ?st0 st] by auto
qed

text \<open>
  C7: whenever either constructor returns on a symmetric input (a general matrix with
  \<open>A(i,j) = A(j,i)\<close> for all indices, or a \<open>symmetric_matrix\<close>), every entry
  \<open>0..n-1\<close> of \<open>getImagEigenvalues()\<close> is exactly zero. The QL iteration has no
  iteration bound, so the statement is about the runs that return; the instance that
  follows is a run that does.
\<close>

theorem C7_imag_zero_symmetric:
  "(EigenvalueDecomposition fuel loc mem A = Some (Inr st) \<and>
      (\<forall>i j. 0 \<le> i \<and> i < int (size2 A) \<and> 0 \<le> j \<and> j < int (size2 A)
         \<longrightarrow> data A (i, j) = data A (j, i))
    \<longrightarrow> (\<forall>i. 0 \<le> i \<and> i < int (size2 A) \<longrightarrow> getImagEigenvalues st i = 0)) \<and>
   (EigenvalueDecomposition_sym fuel' mem' S = Some (Inr st')
    \<longrightarrow> (\<forall>i. 0 \<le> i \<and> i < int (size_sym S) \<longrightarrow> getImagEigenvalues st' i = 0))"
proof (intro conjI impI allI)
  fix i
  assume a: "EigenvalueDecomposition fuel loc mem A = Some (Inr st) \<and>
      (\<forall>i j. 0 \<le> i \<and> i < int (size2 A) \<and> 0 \<le> j \<and> j < int (size2 A)
         \<longrightarrow> data A (i, j) = data A (j, i))"
    and i: "0 \<le> i \<and> i < int (size2 A)"
  then have "is_symmetric A"
    using construct_cases [of fuel loc mem A st] by (simp add: is_symmetric_iff)
  then obtain st0 where "dim_n st0 = int (size2 A)" "tql2 fuel st0 = Some st"
    using a construct_cases [of fuel loc mem A st] by auto
  then show "getImagEigenvalues st i = 0"
    using tql2_imag_zero [of fuel st0 st i] i by (simp add: getImagEigenvalues_def)
next
  fix i
  assume a: "EigenvalueDecomposition_sym fuel' mem' S = Some (Inr st')"
    and i: "0 \<le> i \<and> i < int (size_sym S)"
  then obtain st0 where "dim_n st0 = int (size_sym S)" "tql2 fuel' st0 = Some st'"
    using construct_sym_cases by blast
  then show "getImagEigenvalues st' i = 0"
    using tql2_imag_zero [of fuel' st0 st' i] i by (simp add: getImagEigenvalues_def)
qed

lemma sym_entries_sym2:
  "\<forall>i j. 0 \<le> i \<and> i < int (size2 sym2) \<and> 0 \<le> j \<and> j < int (size2 sym2)
         \<longrightarrow> data sym2 (i, j) = data sym2 (j, i)"
  using sym_sym2 by (simp add: is_symmetric_iff)

lemma construct_three_sym:
  "\<exists>st. EigenvalueDecomposition_sym 0 zero_mem three_sym = Some (Inr st) \<and> dim_n st = 1 \<and>
        vec_d st 0 = 3 \<and> vec_e st 0 = 0 \<and> div_ok st"
  by (simp add: EigenvalueDecomposition_sym_def Let_def three_sym_def tred2_one tql2_one
      sym_at_def zero_mem_def)

theorem C7_imag_zero_symmetric_witness:
  "(\<exists>st. EigenvalueDecomposition 1 (0, 0, 0, 0) zero_mem sym2 = Some (Inr st) \<and>
      (\<forall>i j. 0 \<le> i \<and> i < int (size2 sym2) \<and> 0 \<le> j \<and> j < int (size2 sym2)
         \<longrightarrow> data sym2 (i, j) = data sym2 (j, i)) \<and>
      (\<forall>i. 0 \<le> i \<and> i < int (size2 sym2) \<longrightarrow> getImagEigenvalues st i = 0)) \<and>
   (\<exists>st'. EigenvalueDecomposition_sym 0 zero_mem three_sym = Some (Inr st') \<and>
      (\<forall>i. 0 \<le> i \<and> i < int (size_sym three_sym) \<longrightarrow> getImagEigenvalues st' i = 0))"
proof -
  obtain st where st: "EigenvalueDecomposition 1 (0, 0, 0, 0) zero_mem sym2 = Some (Inr st)"
    using construct_sym2 by blast
  obtain st' where st': "EigenvalueDecomposition_sym 0 zero_mem three_sym = Some (Inr st')"
    using construct_three_sym by blast
  show ?thesis
    using C7_imag_zero_symmetric [where fuel = 1 and loc = "(0, 0, 0, 0)" and mem = zero_mem
        and A = sym2 and st = st and fuel' = 0 and mem' = zero_mem and S = three_sym
        and st' = st'] st st' sym_entries_sym2
    by blast
qed

text \<open>
  C3: whenever the constructor from a general matrix returns, every index \<open>i\<close> with
  \<open>e(i) > 0\<close> is followed by its conjugate: \<open>i+1\<close> is an index, \<open>d(i) = d(i+1)\<close> and
  \<open>e(i+1) = -e(i)\<close>. (For a symmetric input no \<open>e(i)\<close> is positive; the content is the
  non-symmetric case, as in the instance that follows.)
\<close>

theorem C3_conjugate_pairs:
  "EigenvalueDecomposition fuel loc mem A = Some (Inr st)
   \<longrightarrow> (\<forall>i. 0 \<le> i \<and> i < int (size2 A) \<and> 0 < getImagEigenvalues st i
          \<longrightarrow> i + 1 < int (size2 A) \<and>
              getRealEigenvalues st i = getRealEigenvalues st (i + 1) \<and>
              getImagEigenvalues st (i + 1) = - getImagEigenvalues st i)"
proof (intro impI allI)
  fix i
  assume a: "EigenvalueDecomposition fuel loc mem A = Some (Inr st)"
    and i: "0 \<le> i \<and> i < int (size2 A) \<and> 0 < getImagEigenvalues st i"
  note c = construct_cases [OF a]
  show "i + 1 < int (size2 A) \<and>
        getRealEigenvalues st i = getRealEigenvalues st (i + 1) \<and>
        getImagEigenvalues st (i + 1) = - getImagEigenvalues st i"
  proof (cases "is_symmetric A")
    case True
    then obtain st0 where "dim_n st0 = int (size2 A)" "tql2 fuel st0 = Some st"
      using c by auto
    then have "vec_e st i = 0"
      using tql2_imag_zero [of fuel st0 st i] i by simp
    then show ?thesis using i by (simp add: getImagEigenvalues_def)
  next
    case False
    then obtain st0 where st0: "dim_n st0 = int (size2 A)" "hqr2 fuel loc st0 = Some st"
      using c by auto
    then show ?thesis
      using hqr2_pairs [of fuel loc st0 st] i
      by (simp add: getImagEigenvalues_def getRealEigenvalues_def)
  qed
qed

theorem C3_conjugate_pairs_witness:
  "\<exists>st. EigenvalueDecomposition 1 (0, 0, 0, 0) zero_mem rot2 = Some (Inr st) \<and>
        0 < getImagEigenvalues st 0 \<and>
        getRealEigenvalues st 0 = getRealEigenvalues st 1 \<and>
        getImagEigenvalues st 1 = - getImagEigenvalues st 0"
proof -
  obtain st where st: "EigenvalueDecomposition 1 (0, 0, 0, 0) zero_mem rot2 = Some (Inr st)"
    and e: "vec_e st 0 = 1"
    using construct_rot2 by blast
  have "0 \<le> (0::int) \<and> 0 < int (size2 rot2) \<and> 0 < getImagEigenvalues st 0"
    using e by (simp add: rot2_def getImagEigenvalues_def)
  then show ?thesis
    using C3_conjugate_pairs [of 1 "(0, 0, 0, 0)" zero_mem rot2 st] st by fastforce
qed

lemma constructed_ends:
  assumes "EigenvalueDecomposition fuel loc mem A = Some (Inr st) \<or>
           EigenvalueDecomposition_sym fuel' mem' S = Some (Inr st)"
    and n: "0 < dim_n st"
  shows "0 \<le> vec_e st 0 \<and> vec_e st (dim_n st - 1) \<le> 0"
proof -
  consider (ql) st0 fl where "dim_n st0 = dim_n st" "tql2 fl st0 = Some st"
    | (qr) st0 where "dim_n st0 = dim_n st" "hqr2 fuel loc st0 = Some st"
    using assms(1) construct_cases [of fuel loc mem A st]
      construct_sym_cases [of fuel' mem' S st] by auto
  then show ?thesis
  proof cases
    case ql
    then show ?thesis
      using tql2_imag_zero [of fl st0 st 0] tql2_imag_zero [of fl st0 st "dim_n st - 1"] n
      by simp
  next
    case qr
    then show ?thesis
      using hqr2_pairs [of fuel loc st0 st] n by simp
  qed
qed

text \<open>
  C4: for every object either constructor returns, \<open>getD\<close> returns an \<open>n\<close> by \<open>n\<close>
  matrix with \<open>D(i,i) = d(i)\<close>, \<open>D(i,i+1) = e(i)\<close> where \<open>e(i) > 0\<close>,
  \<open>D(i,i-1) = e(i)\<close> where \<open>e(i) < 0\<close>, and zero everywhere else.
\<close>

theorem C4_getD_entries:
  "EigenvalueDecomposition fuel loc mem A = Some (Inr st) \<or>
   EigenvalueDecomposition_sym fuel' mem' S = Some (Inr st)
   \<longrightarrow> (\<exists>D. getD st = Inr D \<and> size1 D = nat (dim_n st) \<and> size2 D = nat (dim_n st) \<and>
          (\<forall>i j. 0 \<le> i \<and> i < dim_n st \<and> 0 \<le> j \<and> j < dim_n st \<longrightarrow>
             data D (i, j) =
               (if j = i then getRealEigenvalues st i
                else if j = i + 1 \<and> 0 < getImagEigenvalues st i then getImagEigenvalues st i
                else if j = i - 1 \<and> getImagEigenvalues st i < 0 then getImagEigenvalues st i
                else 0)))"
proof
  assume a: "EigenvalueDecomposition fuel loc mem A = Some (Inr st) \<or>
             EigenvalueDecomposition_sym fuel' mem' S = Some (Inr st)"
  have "getD st = Inr \<lparr>size1 = nat (dim_n st), size2 = nat (dim_n st),
                        data = block_diag (dim_n st) (vec_d st) (vec_e st)\<rparr>"
    using constructed_ends [OF a] getD_block_diag [of st] by simp
  then show "\<exists>D. getD st = Inr D \<and> size1 D = nat (dim_n st) \<and> size2 D = nat (dim_n st) \<and>
          (\<forall>i j. 0 \<le> i \<and> i < dim_n st \<and> 0 \<le> j \<and> j < dim_n st \<longrightarrow>
             data D (i, j) =
               (if j = i then getRealEigenvalues st i
                else if j = i + 1 \<and> 0 < getImagEigenvalues st i then getImagEigenvalues st i
                else if j = i - 1 \<and> getImagEigenvalues st i < 0 then getImagEigenvalues st i
                else 0))"
    by (simp add: block_diag_def getRealEigenvalues_def getImagEigenvalues_def)
qed

theorem C4_getD_entries_witness:
  "\<exists>st D. EigenvalueDecomposition 1 (0, 0, 0, 0) zero_mem rot2 = Some (Inr st) \<and>
        getD st = Inr D \<and> size1 D = 2 \<and> size2 D = 2 \<and>
        data D (0, 0) = 0 \<and> data D (0, 1) = 1 \<and> data D (1, 0) = - 1 \<and> data D (1, 1) = 0"
proof -
  obtain st where st: "EigenvalueDecomposition 1 (0, 0, 0, 0) zero_mem rot2 = Some (Inr st)"
    and v: "dim_n st = 2" "vec_e st 0 = 1" "vec_e st 1 = - 1" "vec_d st 0 = 0" "vec_d st 1 = 0"
    using construct_rot2 by blast
  obtain D where D: "getD st = Inr D" "size1 D = nat (dim_n st)" "size2 D = nat (dim_n st)"
    and ent: "\<forall>i j. 0 \<le> i \<and> i < dim_n st \<and> 0 \<le> j \<and> j < dim_n st \<longrightarrow>
             data D (i, j) =
               (if j = i then getRealEigenvalues st i
                else if j = i + 1 \<and> 0 < getImagEigenvalues st i then getImagEigenvalues st i
                else if j = i - 1 \<and> getImagEigenvalues st i < 0 then getImagEigenvalues st i
                else 0)"
    using C4_getD_entries [where fuel = 1 and loc = "(0, 0, 0, 0)" and mem = zero_mem
        and A = rot2 and st = st and fuel' = 0 and mem' = zero_mem and S = three_sym] st
    by blast
  have "data D (0, 0) = 0" "data D (0, 1) = 1" "data D (1, 0) = - 1" "data D (1, 1) = 0"
    using ent [rule_format, of 0 0] ent [rule_format, of 0 1] ent [rule_format, of 1 0]
      ent [rule_format, of 1 1] v
    by (simp_all add: getRealEigenvalues_def getImagEigenvalues_def)
  then show ?thesis using st D v by auto
qed

end
